theory Spec2Isabelle
  imports Complex_Main "HOL-Library.AList" "HOL-Library.Multiset" "HOL-Library.Log_Nat"
begin

section \<open>Numbers\<close>

text \<open>
  A JavaScript number is a double: \<open>NaN\<close>, an infinity, negative zero, or a finite double,
  written \<open>Fin r\<close> with \<open>r\<close> its exact value (\<open>Fin 0\<close> is positive zero). The sum of
  two finite doubles is their exact sum rounded to the nearest double, ties to the even
  significand: \<open>round_double\<close>, with 53 significant bits, exponents from \<open>-1022\<close> to
  \<open>1023\<close>, gradual underflow and overflow to an infinity.
\<close>

datatype num = NaN | PInf | NInf | NZero | Fin rat

definition pow2 :: "int \<Rightarrow> rat" where
  "pow2 k = (if 0 \<le> k then 2 ^ nat k else 1 / 2 ^ nat (- k))"

text \<open>For \<open>x > 0\<close>, the exponent \<open>e\<close> with \<open>2\<^sup>e \<le> x < 2\<^sup>e\<^sup>+\<^sup>1\<close>.\<close>

definition ilog2 :: "rat \<Rightarrow> int" where
  "ilog2 x =
     (if 1 \<le> x then bitlen \<lfloor>x\<rfloor> - 1
      else - bitlen (\<lceil>1 / x\<rceil> - 1))"

definition round_half_even :: "rat \<Rightarrow> int" where
  "round_half_even z =
     (let f = \<lfloor>z\<rfloor>; d = z - of_int f
      in if d < 1 / 2 then f else if 1 / 2 < d then f + 1 else if even f then f else f + 1)"

definition round_double :: "rat \<Rightarrow> num" where
  "round_double x =
     (if x = 0 then Fin 0
      else let e = max (ilog2 \<bar>x\<bar>) (- 1022);
               q = pow2 (e - 52);
               y = of_int (round_half_even (x / q)) * q
           in if pow2 1024 \<le> y then PInf
              else if y \<le> - pow2 1024 then NInf
              else if y = 0 then (if x < 0 then NZero else Fin 0)
              else Fin y)"

text \<open>The \<^verbatim>\<open>+\<close> of two numbers.\<close>

fun dadd :: "num \<Rightarrow> num \<Rightarrow> num" where
  "dadd NaN b = NaN"
| "dadd a NaN = NaN"
| "dadd PInf NInf = NaN"
| "dadd NInf PInf = NaN"
| "dadd PInf b = PInf"
| "dadd a PInf = PInf"
| "dadd NInf b = NInf"
| "dadd a NInf = NInf"
| "dadd NZero b = b"
| "dadd a NZero = a"
| "dadd (Fin a) (Fin b) = round_double (a + b)"

text \<open>
  The order that \<^verbatim>\<open>Math.min\<close> and \<^verbatim>\<open>Math.max\<close> use on numbers other than \<open>NaN\<close>, with
  negative zero below positive zero; both give \<open>NaN\<close> when an argument is \<open>NaN\<close>.
\<close>

fun num_le :: "num \<Rightarrow> num \<Rightarrow> bool" where
  "num_le NaN b = False"
| "num_le a NaN = False"
| "num_le NInf b = True"
| "num_le a PInf = True"
| "num_le PInf b = False"
| "num_le a NInf = False"
| "num_le NZero NZero = True"
| "num_le NZero (Fin b) = (0 \<le> b)"
| "num_le (Fin a) NZero = (a < 0)"
| "num_le (Fin a) (Fin b) = (a \<le> b)"

definition Math_max :: "num \<Rightarrow> num \<Rightarrow> num" where
  "Math_max a b = (if a = NaN \<or> b = NaN then NaN else if num_le a b then b else a)"

definition Math_min :: "num \<Rightarrow> num \<Rightarrow> num" where
  "Math_min a b = (if a = NaN \<or> b = NaN then NaN else if num_le a b then a else b)"

text \<open>\<^verbatim>\<open>Number.isInteger\<close>\<close>

fun is_integer :: "num \<Rightarrow> bool" where
  "is_integer (Fin r) = (r = of_int \<lfloor>r\<rfloor>)"
| "is_integer NZero = True"
| "is_integer n = False"

section \<open>JSON values as the program sees them\<close>

text \<open>
  The program of \<^verbatim>\<open>app.js\<close> keeps its whole state in one JavaScript object that is
  read from and written to \<^verbatim>\<open>localStorage\<close> as JSON. Every value it handles is therefore
  a JSON value, with the numbers that \<^verbatim>\<open>JSON.parse\<close> can give: a literal beyond the range
  of the doubles is read as an infinity, \<^verbatim>\<open>-0\<close> as negative zero. A JavaScript string is a
  sequence of UTF-16 code units, written here as a list of natural numbers; \<open>js\<close> turns
  an ASCII literal into such a sequence. An object is the list of its own properties in
  insertion order (an engine enumerates the keys that are array indices before the
  others; the statements below read properties by name and do not depend on which key
  comes first); \<open>undefined\<close> is \<open>None\<close> of \<open>json option\<close>.
\<close>

type_synonym jstring = "nat list"

definition js :: "string \<Rightarrow> jstring" where
  "js s = map of_char s"

datatype json =
    JNull
  | JBool bool
  | JNum num
  | JStr jstring
  | JArr "json list"
  | JObj "(jstring \<times> json) list"

type_synonym obj = "(jstring \<times> json) list"

text \<open>
  Exceptions that the code can raise; \<open>Inl e\<close> says that a function threw \<open>e\<close>, and what
  it had stored before throwing is then not tracked. \<open>OutsideModel\<close> is not a JavaScript
  exception: it marks the behaviours that a JSON value cannot represent, an array that
  receives a property which is not one of its elements, an array that holds \<open>undefined\<close>
  and an object whose prototype is replaced.
\<close>

datatype exn = SyntaxError | TypeError | Error jstring | OutsideModel

definition bindE :: "exn + 'a \<Rightarrow> ('a \<Rightarrow> exn + 'b) \<Rightarrow> exn + 'b" where
  "bindE m f = (case m of Inl e \<Rightarrow> Inl e | Inr x \<Rightarrow> f x)"

text \<open>Truthiness (\<open>ToBoolean\<close>), and the \<^verbatim>\<open>typeof\<close> tests the code makes.\<close>

fun truthy :: "json option \<Rightarrow> bool" where
  "truthy None = False"
| "truthy (Some JNull) = False"
| "truthy (Some (JBool b)) = b"
| "truthy (Some (JNum n)) = (n \<noteq> NaN \<and> n \<noteq> NZero \<and> n \<noteq> Fin 0)"
| "truthy (Some (JStr s)) = (s \<noteq> [])"
| "truthy (Some (JArr xs)) = True"
| "truthy (Some (JObj m)) = True"

fun is_number :: "json option \<Rightarrow> bool" where
  "is_number (Some (JNum n)) = True"
| "is_number v = False"

fun is_boolean :: "json option \<Rightarrow> bool" where
  "is_boolean (Some (JBool b)) = True"
| "is_boolean v = False"

text \<open>The decimal name of an array index, as code units.\<close>

fun digits :: "nat \<Rightarrow> jstring" where
  "digits n = (if n < 10 then [48 + n] else digits (n div 10) @ [48 + n mod 10])"

declare digits.simps [simp del]

text \<open>
  The own enumerable properties of a value, which is what an object spread copies: the
  properties of an object, the elements of an array and the code units of a string under
  their indices, nothing for \<open>null\<close>, a boolean or a number.
\<close>

fun props :: "json \<Rightarrow> obj" where
  "props (JObj m) = m"
| "props (JArr xs) = zip (map digits [0..<length xs]) xs"
| "props (JStr s) = zip (map digits [0..<length s]) (map (\<lambda>c. JStr [c]) s)"
| "props v = []"

text \<open>
  \<open>spread out ps\<close> is \<^verbatim>\<open>{...out, ...ps}\<close>: each property is stored in turn, in place when the
  key is there already and at the end otherwise. \<open>assign\<close> is one such store.
\<close>

definition assign :: "obj \<Rightarrow> jstring \<Rightarrow> json \<Rightarrow> obj" where
  "assign out k v = AList.update k v out"

fun spread :: "obj \<Rightarrow> obj \<Rightarrow> obj" where
  "spread out [] = out"
| "spread out ((k, v) # ps) = spread (assign out k v) ps"

text \<open>
  Reading a property: a \<open>TypeError\<close> on \<open>null\<close>, the own property otherwise, and the
  \<open>length\<close> of an array or string. An inherited member of a built-in prototype is a
  function or, for \<^verbatim>\<open>__proto__\<close>, an object, not a JSON value. The program reads a name
  that is not fixed only in \<^verbatim>\<open>Number(state.baselines[category])\<close>, where such a member
  gives \<open>NaN\<close> as \<open>undefined\<close> does; the fixed names it reads name no such member.
\<close>

fun getp :: "json \<Rightarrow> jstring \<Rightarrow> exn + json option" where
  "getp JNull k = Inl TypeError"
| "getp (JArr xs) k =
     Inr (if k = js ''length'' then Some (JNum (Fin (of_nat (length xs))))
          else map_of (props (JArr xs)) k)"
| "getp (JStr s) k =
     Inr (if k = js ''length'' then Some (JNum (Fin (of_nat (length s))))
          else map_of (props (JStr s)) k)"
| "getp v k = Inr (map_of (props v) k)"

text \<open>\<^verbatim>\<open>x || {}\<close>\<close>

definition or_empty :: "json option \<Rightarrow> json" where
  "or_empty x = (case x of None \<Rightarrow> JObj [] | Some v \<Rightarrow> if truthy x then v else JObj [])"

text \<open>\<^verbatim>\<open>out.k ??= v\<close>: stores only when the property is \<open>undefined\<close> or \<open>null\<close>.\<close>

definition nullish_assign :: "obj \<Rightarrow> jstring \<Rightarrow> json \<Rightarrow> obj" where
  "nullish_assign out k v =
     (case map_of out k of None \<Rightarrow> assign out k v | Some JNull \<Rightarrow> assign out k v | Some w \<Rightarrow> out)"

section \<open>Constants and default state\<close>

definition DEFAULT_BASELINES :: obj where
  "DEFAULT_BASELINES =
    [(js ''Focus & Attention'', JNum (Fin 6)),
     (js ''Working Memory'', JNum (Fin (17 / 2))),
     (js ''Logic & Reasoning'', JNum (Fin 6)),
     (js ''Comprehension & Synthesis'', JNum (Fin (15 / 2))),
     (js ''Vocabulary'', JNum (Fin 8)),
     (js ''Quick Math'', JNum (Fin (9 / 2))),
     (js ''Visualization'', JNum (Fin 8)),
     (js ''Spatial Awareness'', JNum (Fin 7)),
     (js ''Pattern Recognition'', JNum (Fin 9)),
     (js ''Decision-Making Under Uncertainty'', JNum (Fin (17 / 2)))]"

definition DEFAULT_NOTES :: obj where
  "DEFAULT_NOTES =
    [(js ''Focus & Attention'',
        JStr (js ''Rotation '' @ [8800] @ js '' hierarchy change. Guard against assumption drift.'')),
     (js ''Working Memory'', JStr (js ''Strong filter under interference.'')),
     (js ''Logic & Reasoning'', JStr (js ''Needs formal rigor (syllogism overlap trap).'')),
     (js ''Comprehension & Synthesis'', JStr (js ''Good gist; add why/how for depth.'')),
     (js ''Vocabulary'',
        JStr (js ''Solid recognition; we'' @ [8217] @ js ''ll test active use later.'')),
     (js ''Quick Math'', JStr (js ''Accuracy under pressure is the XP farm.'')),
     (js ''Visualization'', JStr (js ''Strong mental imagery; keep sharpening transformations.'')),
     (js ''Spatial Awareness'', JStr (js ''Good directional reasoning; confidence wobble only.'')),
     (js ''Pattern Recognition'', JStr (js ''Standout strength. Use it everywhere.'')),
     (js ''Decision-Making Under Uncertainty'', JStr (js ''Good expected-value instincts.''))]"

definition DEFAULT_STATE :: obj where
  "DEFAULT_STATE =
    [(js ''baselines'', JObj DEFAULT_BASELINES),
     (js ''notes'', JObj DEFAULT_NOTES),
     (js ''todayFocus'', JStr [8212]),
     (js ''log'', JArr [])]"

section \<open>Storage\<close>

text \<open>
  \<open>resave\<close> is a value written by \<^verbatim>\<open>JSON.stringify\<close> and parsed back by \<^verbatim>\<open>JSON.parse\<close>:
  \<open>NaN\<close> and the infinities are written as \<^verbatim>\<open>null\<close> and negative zero as \<^verbatim>\<open>0\<close>; everything
  else comes back as it was.
\<close>

fun resave :: "json \<Rightarrow> json"
  and resave_list :: "json list \<Rightarrow> json list"
  and resave_props :: "obj \<Rightarrow> obj" where
  "resave (JNum n) = (case n of Fin r \<Rightarrow> JNum (Fin r) | NZero \<Rightarrow> JNum (Fin 0) | _ \<Rightarrow> JNull)"
| "resave (JArr xs) = JArr (resave_list xs)"
| "resave (JObj m) = JObj (resave_props m)"
| "resave JNull = JNull"
| "resave (JBool b) = JBool b"
| "resave (JStr s) = JStr s"
| "resave_list [] = []"
| "resave_list (x # xs) = resave x # resave_list xs"
| "resave_props [] = []"
| "resave_props ((k, v) # ps) = (k, resave v) # resave_props ps"

text \<open>
  \<^verbatim>\<open>structuredCloneSafe(x)\<close> is \<^verbatim>\<open>JSON.parse(JSON.stringify(x))\<close>, called on the default state
  and its parts. Values have no identity here, so a fresh copy is the value.
\<close>

definition structuredCloneSafe :: "obj \<Rightarrow> obj" where
  "structuredCloneSafe x = resave_props x"

text \<open>
  What \<^verbatim>\<open>localStorage.getItem\<close> followed by \<^verbatim>\<open>JSON.parse\<close> can give: nothing stored (or
  the empty text), a read or a text that throws (\<^verbatim>\<open>JSON.parse\<close> rejects the text), or a
  parsed value.
\<close>

datatype stored = Absent | Unparsable | Parsed json

text \<open>
  \<open>saveState\<close> writes \<^verbatim>\<open>JSON.stringify(state)\<close> and the next \<open>loadState\<close> parses that text:
  \<open>saveState st\<close> is what the storage holds after the call, as \<open>loadState\<close> reads it.
\<close>

definition saveState :: "obj \<Rightarrow> stored" where
  "saveState state = Parsed (resave (JObj state))"

text \<open>The arrow function of the migration (lines 99 to 124).\<close>

definition migrate_entry :: "json \<Rightarrow> json" where
  "migrate_entry e =
    (let out = spread [] (props e);
         out = (if \<not> is_number (map_of out (js ''xpPotential'')) \<and> is_number (map_of out (js ''xp''))
                then (case map_of out (js ''xp'') of
                        Some x \<Rightarrow> assign out (js ''xpPotential'') x
                      | None \<Rightarrow> out)
                else out);
         out = (if \<not> is_boolean (map_of out (js ''completed''))
                then assign out (js ''completed'') (JBool True)
                else out);
         out = AList.delete (js ''xp'') out;
         out = assign out (js ''xpPotential'')
                 (case map_of out (js ''xpPotential'') of
                    Some (JNum n) \<Rightarrow> JNum n
                  | _ \<Rightarrow> JNum (Fin 0));
         out = nullish_assign out (js ''mood'') (JStr []);
         out = nullish_assign out (js ''sleepHrs'') (JStr []);
         out = nullish_assign out (js ''difficulty'') (JStr []);
         out = nullish_assign out (js ''liked'') (JStr []);
         out = nullish_assign out (js ''challengeText'') (JStr []);
         out = nullish_assign out (js ''answerText'') (JStr []);
         out = nullish_assign out (js ''insightText'') (JStr [])
     in JObj out)"

text \<open>The object literal that merges the parsed value with the defaults (lines 90 to 96).\<close>

definition merge_defaults :: "json \<Rightarrow> exn + obj" where
  "merge_defaults parsed =
     bindE (getp parsed (js ''baselines'')) (\<lambda>pb.
     bindE (getp parsed (js ''notes'')) (\<lambda>pn.
     bindE (getp parsed (js ''log'')) (\<lambda>pl.
       Inr (assign
             (assign
               (assign
                 (spread (spread [] (structuredCloneSafe DEFAULT_STATE)) (props parsed))
                 (js ''baselines'')
                 (JObj (spread (spread [] (structuredCloneSafe DEFAULT_BASELINES)) (props (or_empty pb)))))
               (js ''notes'')
               (JObj (spread (spread [] (structuredCloneSafe DEFAULT_NOTES)) (props (or_empty pn)))))
             (js ''log'')
             (case pl of Some (JArr es) \<Rightarrow> JArr es | _ \<Rightarrow> JArr [])))))"

text \<open>The body of the \<^verbatim>\<open>try\<close> block, then \<open>loadState\<close> with its \<^verbatim>\<open>catch\<close>.\<close>

definition loadState_try :: "stored \<Rightarrow> exn + obj" where
  "loadState_try raw =
     (case raw of
        Absent \<Rightarrow> Inr (structuredCloneSafe DEFAULT_STATE)
      | Unparsable \<Rightarrow> Inl SyntaxError
      | Parsed parsed \<Rightarrow>
          bindE (merge_defaults parsed) (\<lambda>st.
            case map_of st (js ''log'') of
              Some (JArr es) \<Rightarrow> Inr (assign st (js ''log'') (JArr (map migrate_entry es)))
            | _ \<Rightarrow> Inl TypeError))"

definition loadState :: "stored \<Rightarrow> exn + obj" where
  "loadState raw =
     (case loadState_try raw of
        Inl e \<Rightarrow> Inr (structuredCloneSafe DEFAULT_STATE)
      | Inr st \<Rightarrow> Inr st)"

section \<open>Conversions supplied by the JavaScript engine\<close>

text \<open>
  The program relies on conversions that the engine implements and this repository does
  not: the text of a number (\<^verbatim>\<open>String(n)\<close> and template literals), the numeric value of a
  string (\<^verbatim>\<open>Number(s)\<close>), the primitive value of an array or object (which can throw),
  and \<^verbatim>\<open>toFixed(1)\<close>. They are parameters of the model.
\<close>

record runtime =
  num_str :: "num \<Rightarrow> jstring"
  str_num :: "jstring \<Rightarrow> num"
  obj_prim :: "json \<Rightarrow> exn + jstring"
  fixed1 :: "num \<Rightarrow> jstring"

fun ToString :: "runtime \<Rightarrow> json option \<Rightarrow> exn + jstring" where
  "ToString rt None = Inr (js ''undefined'')"
| "ToString rt (Some JNull) = Inr (js ''null'')"
| "ToString rt (Some (JBool b)) = Inr (if b then js ''true'' else js ''false'')"
| "ToString rt (Some (JNum n)) = Inr (num_str rt n)"
| "ToString rt (Some (JStr s)) = Inr s"
| "ToString rt (Some v) = obj_prim rt v"

fun ToNumber :: "runtime \<Rightarrow> json option \<Rightarrow> exn + num" where
  "ToNumber rt None = Inr NaN"
| "ToNumber rt (Some JNull) = Inr (Fin 0)"
| "ToNumber rt (Some (JBool b)) = Inr (Fin (if b then 1 else 0))"
| "ToNumber rt (Some (JNum n)) = Inr n"
| "ToNumber rt (Some (JStr s)) = Inr (str_num rt s)"
| "ToNumber rt (Some v) = bindE (obj_prim rt v) (\<lambda>s. Inr (str_num rt s))"

text \<open>\<^verbatim>\<open>n || 0\<close> on a number: \<open>NaN\<close> and the zeros give \<open>0\<close>.\<close>

definition or_zero :: "num \<Rightarrow> num" where
  "or_zero n = (if truthy (Some (JNum n)) then n else Fin 0)"

text \<open>
  Storing a property. On \<open>null\<close> it throws; on a boolean, number or string the store is
  ignored (the file is a classic script without \<^verbatim>\<open>"use strict"\<close>); on an array it replaces
  the element when the key is the index of one. On an object the store goes to the own
  property, new or old, with one exception: under the name \<^verbatim>\<open>__proto__\<close>, when the object
  has no own property of that name, it goes to the setter inherited from
  \<^verbatim>\<open>Object.prototype\<close>, which ignores a boolean, a number or a string and otherwise
  replaces the prototype.
\<close>

definition array_index :: "jstring \<Rightarrow> nat \<Rightarrow> nat option" where
  "array_index k n = List.find (\<lambda>i. digits i = k) [0..<n]"

fun setp :: "json \<Rightarrow> jstring \<Rightarrow> json \<Rightarrow> exn + json" where
  "setp JNull k v = Inl TypeError"
| "setp (JObj m) k v =
     (if k = js ''__proto__'' \<and> map_of m k = None
      then (case v of
              JBool b \<Rightarrow> Inr (JObj m)
            | JNum n \<Rightarrow> Inr (JObj m)
            | JStr s \<Rightarrow> Inr (JObj m)
            | _ \<Rightarrow> Inl OutsideModel)
      else Inr (JObj (assign m k v)))"
| "setp (JArr xs) k v =
     (case array_index k (length xs) of Some i \<Rightarrow> Inr (JArr (xs[i := v])) | None \<Rightarrow> Inl OutsideModel)"
| "setp w k v = Inr w"

text \<open>A property of a value that may be \<open>undefined\<close>, and \<^verbatim>\<open>Object.keys\<close> / \<^verbatim>\<open>Object.entries\<close>.\<close>

fun getq :: "json option \<Rightarrow> jstring \<Rightarrow> exn + json option" where
  "getq None k = Inl TypeError"
| "getq (Some v) k = getp v k"

fun Object_entries :: "json option \<Rightarrow> exn + obj" where
  "Object_entries None = Inl TypeError"
| "Object_entries (Some JNull) = Inl TypeError"
| "Object_entries (Some v) = Inr (props v)"

definition Object_keys :: "json option \<Rightarrow> exn + jstring list" where
  "Object_keys v = bindE (Object_entries v) (\<lambda>ps. Inr (map fst ps))"

text \<open>\<^verbatim>\<open>Array.prototype.join\<close> on strings that may be \<open>undefined\<close>, and on JSON elements.\<close>

fun join :: "jstring \<Rightarrow> jstring list \<Rightarrow> jstring" where
  "join sep [] = []"
| "join sep [x] = x"
| "join sep (x # y # ys) = x @ sep @ join sep (y # ys)"

fun join_parts :: "runtime \<Rightarrow> json list \<Rightarrow> exn + jstring list" where
  "join_parts rt [] = Inr []"
| "join_parts rt (x # xs) =
     bindE (case x of JNull \<Rightarrow> Inr [] | _ \<Rightarrow> ToString rt (Some x)) (\<lambda>s.
     bindE (join_parts rt xs) (\<lambda>ss. Inr (s # ss)))"

fun array_join :: "runtime \<Rightarrow> jstring \<Rightarrow> json option \<Rightarrow> exn + jstring" where
  "array_join rt sep (Some (JArr xs)) = bindE (join_parts rt xs) (\<lambda>ss. Inr (join sep ss))"
| "array_join rt sep v = Inl TypeError"

section \<open>Helpers\<close>

definition clamp :: "num \<Rightarrow> num \<Rightarrow> num \<Rightarrow> num" where
  "clamp n lo hi = Math_max lo (Math_min hi n)"

text \<open>
  \<^verbatim>\<open>a.splice(i, 1)\<close>: the removed elements and what is left. A negative start counts from
  the end, a start beyond the end removes nothing.
\<close>

definition splice1 :: "'a list \<Rightarrow> int \<Rightarrow> 'a list \<times> 'a list" where
  "splice1 a i =
     (let len = int (length a);
          start = nat (if i < 0 then max (len + i) 0 else min i len)
      in (take 1 (drop start a), take start a @ drop (Suc start) a))"

text \<open>
  \<open>pickRandom\<close>. \<open>rnd j\<close> is the result of the \<open>j\<close>-th call of \<^verbatim>\<open>Math.random()\<close>. An element
  of the result is \<open>None\<close> where the code would push \<open>undefined\<close>.
\<close>

function pickRandom_loop ::
  "(nat \<Rightarrow> rat) \<Rightarrow> nat \<Rightarrow> nat \<Rightarrow> 'a list \<Rightarrow> 'a option list \<Rightarrow> 'a option list" where
  "pickRandom_loop rnd j cnt a out =
     (if length out < cnt \<and> a \<noteq> []
      then (let i = \<lfloor>rnd j * of_nat (length a)\<rfloor>;
                removed = fst (splice1 a i);
                a' = snd (splice1 a i)
            in pickRandom_loop rnd (Suc j) cnt a'
                 (out @ [case removed of [] \<Rightarrow> None | x # xs \<Rightarrow> Some x]))
      else out)"
  by pat_completeness auto
termination
  by (relation "measure (\<lambda>(rnd, j, cnt, a, out). cnt - length out)") auto

declare pickRandom_loop.simps [simp del]

definition pickRandom :: "(nat \<Rightarrow> rat) \<Rightarrow> 'a list \<Rightarrow> nat \<Rightarrow> 'a option list" where
  "pickRandom rnd arr cnt = pickRandom_loop rnd 0 cnt arr []"

text \<open>\<open>formatScore\<close> on a number, which is what its two callers pass.\<close>

definition formatScore :: "runtime \<Rightarrow> num \<Rightarrow> jstring" where
  "formatScore rt n = (if is_integer n then num_str rt n else fixed1 rt n)"

section \<open>Derived values\<close>

text \<open>\<^verbatim>\<open>e.completed ? (Number(e.xpPotential) || 0) : 0\<close>\<close>

definition earned :: "runtime \<Rightarrow> json \<Rightarrow> exn + num" where
  "earned rt e =
     bindE (getp e (js ''completed'')) (\<lambda>c.
       if truthy c
       then bindE (getp e (js ''xpPotential'')) (\<lambda>x.
            bindE (ToNumber rt x) (\<lambda>n. Inr (or_zero n)))
       else Inr (Fin 0))"

fun reduce_xp :: "runtime \<Rightarrow> json list \<Rightarrow> num \<Rightarrow> exn + num" where
  "reduce_xp rt [] acc = Inr acc"
| "reduce_xp rt (e # es) acc = bindE (earned rt e) (\<lambda>x. reduce_xp rt es (dadd acc x))"

definition calcXP :: "runtime \<Rightarrow> obj \<Rightarrow> exn + num" where
  "calcXP rt state =
     (case map_of state (js ''log'') of
        Some (JArr es) \<Rightarrow> reduce_xp rt es (Fin 0)
      | _ \<Rightarrow> Inl TypeError)"

text \<open>
  \<open>entryToClipboardText\<close>. The twelve candidate lines are computed in the order of the
  source: the five of the header, the four metrics, the three free texts; the empty
  ones are filtered out and the rest joined by newlines.
\<close>

definition truthy_line :: "runtime \<Rightarrow> json \<Rightarrow> jstring \<Rightarrow> jstring \<Rightarrow> exn + jstring" where
  "truthy_line rt e k label =
     bindE (getp e k) (\<lambda>v.
       if truthy v then bindE (ToString rt v) (\<lambda>s. Inr (label @ s)) else Inr [])"

definition header_lines :: "runtime \<Rightarrow> json \<Rightarrow> exn + jstring list" where
  "header_lines rt e =
     bindE (getp e (js ''categories'')) (\<lambda>c.
     bindE (array_join rt (js '', '') (if truthy c then c else Some (JArr []))) (\<lambda>cats.
     bindE (earned rt e) (\<lambda>earnedXP.
     bindE (bindE (getp e (js ''title'')) (ToString rt)) (\<lambda>title.
     bindE (bindE (getp e (js ''time'')) (ToString rt)) (\<lambda>time.
     bindE (getp e (js ''completed'')) (\<lambda>completed.
     bindE (bindE (getp e (js ''xpPotential'')) (ToNumber rt)) (\<lambda>xp.
       Inr [title,
            time,
            js ''Rolled: '' @ cats,
            js ''Completed: '' @ (if truthy completed then js ''Yes'' else js ''No''),
            js ''XP: '' @ num_str rt earnedXP @ js '' / '' @ num_str rt (or_zero xp)])))))))"

definition metric_lines :: "runtime \<Rightarrow> json \<Rightarrow> exn + jstring list" where
  "metric_lines rt e =
     bindE (truthy_line rt e (js ''mood'') (js ''Mood: '')) (\<lambda>mood.
     bindE (bindE (getp e (js ''sleepHrs'')) (\<lambda>v.
              if v \<noteq> Some (JStr [])
              then bindE (ToString rt v) (\<lambda>s. Inr (js ''Sleep: '' @ s @ js '' hrs''))
              else Inr [])) (\<lambda>sleep.
     bindE (truthy_line rt e (js ''difficulty'') (js ''Difficulty: '')) (\<lambda>difficulty.
     bindE (truthy_line rt e (js ''liked'') (js ''Enjoyed: '')) (\<lambda>liked.
       Inr [mood, sleep, difficulty, liked]))))"

definition text_lines :: "runtime \<Rightarrow> json \<Rightarrow> exn + jstring list" where
  "text_lines rt e =
     bindE (truthy_line rt e (js ''challengeText'') ([10] @ js ''Challenge:'' @ [10])) (\<lambda>challenge.
     bindE (truthy_line rt e (js ''answerText'') ([10] @ js ''Answers / Notes:'' @ [10])) (\<lambda>answer.
     bindE (truthy_line rt e (js ''insightText'') ([10] @ js ''Insights:'' @ [10])) (\<lambda>insight.
       Inr [challenge, answer, insight])))"

definition entry_lines :: "runtime \<Rightarrow> json \<Rightarrow> exn + jstring list" where
  "entry_lines rt e =
     bindE (header_lines rt e) (\<lambda>h.
     bindE (metric_lines rt e) (\<lambda>m.
     bindE (text_lines rt e) (\<lambda>t.
       Inr (filter (\<lambda>l. l \<noteq> []) (h @ m @ t)))))"

definition entryToClipboardText :: "runtime \<Rightarrow> json \<Rightarrow> exn + jstring" where
  "entryToClipboardText rt e = bindE (entry_lines rt e) (\<lambda>lines. Inr (join [10] lines))"

section \<open>Core actions\<close>

text \<open>
  The actions change the state and then call \<open>render\<close>, which draws the page and saves
  the state; drawing is outside the model, so an action is the state it leaves. \<open>uuid\<close>
  and \<open>stamp\<close> are what \<^verbatim>\<open>crypto.randomUUID()\<close> and \<open>nowStamp()\<close> return.
\<close>

definition new_entry :: "jstring \<Rightarrow> jstring \<Rightarrow> json \<Rightarrow> json \<Rightarrow> num \<Rightarrow> json" where
  "new_entry uuid stamp title categories xpPotential =
     JObj [(js ''id'', JStr uuid),
           (js ''time'', JStr stamp),
           (js ''title'', title),
           (js ''categories'', categories),
           (js ''xpPotential'', JNum (or_zero xpPotential)),
           (js ''completed'', JBool False),
           (js ''mood'', JStr []),
           (js ''sleepHrs'', JStr []),
           (js ''difficulty'', JStr []),
           (js ''liked'', JStr []),
           (js ''challengeText'', JStr []),
           (js ''answerText'', JStr []),
           (js ''insightText'', JStr [])]"

definition addLogEntry :: "jstring \<Rightarrow> jstring \<Rightarrow> json \<Rightarrow> json \<Rightarrow> num \<Rightarrow> obj \<Rightarrow> exn + obj" where
  "addLogEntry uuid stamp title categories xpPotential state =
     (case map_of state (js ''log'') of
        Some (JArr es) \<Rightarrow>
          Inr (assign state (js ''log'') (JArr (new_entry uuid stamp title categories xpPotential # es)))
      | _ \<Rightarrow> Inl TypeError)"

definition session_xp :: "jstring \<Rightarrow> num" where
  "session_xp kind =
     (if kind = js ''Daily Neural Roll'' then Fin 10
      else if kind = js ''Tri-Skill Sprint'' then Fin 18
      else Fin 25)"

definition runSession ::
  "(nat \<Rightarrow> rat) \<Rightarrow> jstring \<Rightarrow> jstring \<Rightarrow> jstring \<Rightarrow> nat \<Rightarrow> obj \<Rightarrow> exn + obj" where
  "runSession rnd uuid stamp kind cnt state =
     bindE (Object_keys (map_of state (js ''baselines''))) (\<lambda>categories.
       let pick = pickRandom rnd categories cnt
       in if None \<in> set pick then Inl OutsideModel
          else
            let names = map (\<lambda>p. case p of Some s \<Rightarrow> s | None \<Rightarrow> []) pick;
                state = assign state (js ''todayFocus'') (JStr (join ([32, 8226, 32]) names))
            in addLogEntry uuid stamp (JStr kind) (JArr (map JStr names)) (session_xp kind) state)"

text \<open>
  The confirm handler of \<open>quickRetest\<close>: \<open>newScore\<close> is the text of the score input,
  \<open>overwrite\<close> the state of the checkbox.
\<close>

definition retest_text :: "runtime \<Rightarrow> num \<Rightarrow> num \<Rightarrow> bool \<Rightarrow> jstring" where
  "retest_text rt score old overwrite =
     js ''Re-test score: '' @ formatScore rt score @ js '' / 10 (was '' @ formatScore rt old
       @ js ''). '' @ (if overwrite then js ''Baseline updated.'' else js ''Baseline unchanged.'')"

definition quickRetest_onConfirm ::
  "runtime \<Rightarrow> jstring \<Rightarrow> jstring \<Rightarrow> jstring \<Rightarrow> jstring \<Rightarrow> bool \<Rightarrow> obj \<Rightarrow> exn + obj" where
  "quickRetest_onConfirm rt uuid stamp category newScore overwrite state =
     bindE (ToNumber rt (Some (JStr newScore))) (\<lambda>val.
       if val = NaN then Inr state
       else
           let score = clamp val (Fin 0) (Fin 10)
           in bindE (bindE (getq (map_of state (js ''baselines'')) category) (ToNumber rt)) (\<lambda>old.
              bindE (if overwrite
                     then (case map_of state (js ''baselines'') of
                             None \<Rightarrow> Inl TypeError
                           | Some b \<Rightarrow> bindE (setp b category (JNum score)) (\<lambda>b'.
                                         Inr (assign state (js ''baselines'') b')))
                     else Inr state) (\<lambda>state.
              bindE (addLogEntry uuid stamp (JStr (js ''Re-test'')) (JArr [JStr category]) (Fin 6) state)
                (\<lambda>state.
                case map_of state (js ''log'') of
                  Some (JArr (e # es)) \<Rightarrow>
                    bindE (setp e (js ''answerText'') (JStr (retest_text rt score old overwrite))) (\<lambda>e.
                    bindE (setp e (js ''completed'') (JBool True)) (\<lambda>e.
                      Inr (assign state (js ''log'') (JArr (e # es)))))
                | _ \<Rightarrow> Inl TypeError))))"

text \<open>
  The confirm handler of \<open>editBaselines\<close>: \<open>parsed\<close> is \<^verbatim>\<open>JSON.parse(txt)\<close>, \<open>None\<close> when it
  throws. The result is the state left behind and the exception reported by \<^verbatim>\<open>alert\<close>,
  if any.
\<close>

fun edit_loop :: "runtime \<Rightarrow> obj \<Rightarrow> json \<Rightarrow> exn + json" where
  "edit_loop rt [] ob = Inr ob"
| "edit_loop rt ((k, v) # es) ob =
     bindE (ToNumber rt (Some v)) (\<lambda>n.
       if n = NaN then Inl (Error (js ''Non-number score found.''))
       else bindE (setp ob k (JNum (clamp n (Fin 0) (Fin 10)))) (edit_loop rt es))"

definition editBaselines_onConfirm :: "runtime \<Rightarrow> json option \<Rightarrow> obj \<Rightarrow> obj \<times> exn option" where
  "editBaselines_onConfirm rt parsed state =
     (case parsed of
        None \<Rightarrow> (state, Some SyntaxError)
      | Some ob \<Rightarrow>
          (case bindE (Object_entries (Some ob)) (\<lambda>es. edit_loop rt es ob) of
             Inl e \<Rightarrow> (state, Some e)
           | Inr ob' \<Rightarrow> (assign state (js ''baselines'') ob', None)))"

section \<open>Session log actions\<close>

text \<open>
  \<open>handleCompleteToggle\<close> for a checkbox of the log: \<open>ident\<close> is its \<^verbatim>\<open>data-id\<close>, \<open>checked\<close>
  its new state. \<open>toggle_first\<close> is \<^verbatim>\<open>find\<close> followed by the store into the entry found;
  when no entry has the identifier the state stays as it is.
\<close>

fun toggle_first :: "jstring \<Rightarrow> bool \<Rightarrow> json list \<Rightarrow> exn + json list" where
  "toggle_first ident checked [] = Inr []"
| "toggle_first ident checked (e # es) =
     bindE (getp e (js ''id'')) (\<lambda>i.
       if i = Some (JStr ident)
       then bindE (setp e (js ''completed'') (JBool checked)) (\<lambda>e'. Inr (e' # es))
       else bindE (toggle_first ident checked es) (\<lambda>es'. Inr (e # es')))"

definition handleCompleteToggle :: "jstring \<Rightarrow> bool \<Rightarrow> obj \<Rightarrow> exn + obj" where
  "handleCompleteToggle ident checked state =
     (case map_of state (js ''log'') of
        Some (JArr es) \<Rightarrow> bindE (toggle_first ident checked es) (\<lambda>es'.
                            Inr (assign state (js ''log'') (JArr es')))
      | _ \<Rightarrow> Inl TypeError)"

section \<open>Shape of a normalised state\<close>

text \<open>
  Predicates used to state what \<open>loadState\<close> establishes: a property is \<open>filled\<close> when it
  is neither \<open>undefined\<close> nor \<open>null\<close>; an entry is \<open>migrated\<close> when it has a numeric
  \<open>xpPotential\<close>, a boolean \<open>completed\<close>, no \<open>xp\<close> and the seven text fields.
\<close>

definition filled :: "obj \<Rightarrow> jstring \<Rightarrow> bool" where
  "filled out k = (case map_of out k of None \<Rightarrow> False | Some JNull \<Rightarrow> False | Some w \<Rightarrow> True)"

definition migrated :: "obj \<Rightarrow> bool" where
  "migrated out \<longleftrightarrow>
     distinct (map fst out)
     \<and> is_number (map_of out (js ''xpPotential''))
     \<and> is_boolean (map_of out (js ''completed''))
     \<and> map_of out (js ''xp'') = None
     \<and> list_all (filled out)
          [js ''mood'', js ''sleepHrs'', js ''difficulty'', js ''liked'',
           js ''challengeText'', js ''answerText'', js ''insightText'']"

definition migrated_entry :: "json \<Rightarrow> bool" where
  "migrated_entry e = (case e of JObj out \<Rightarrow> migrated out | _ \<Rightarrow> False)"

text \<open>\<open>shape d st\<close>: the keys of \<open>st\<close> are distinct and begin with those of \<open>d\<close>, in order.\<close>

definition shape :: "obj \<Rightarrow> obj \<Rightarrow> bool" where
  "shape d st \<longleftrightarrow> distinct (map fst st) \<and> take (length d) (map fst st) = map fst d"

definition normal_state :: "obj \<Rightarrow> bool" where
  "normal_state st \<longleftrightarrow>
     shape DEFAULT_STATE st
     \<and> (case map_of st (js ''baselines'') of Some (JObj b) \<Rightarrow> shape DEFAULT_BASELINES b | _ \<Rightarrow> False)
     \<and> (case map_of st (js ''notes'') of Some (JObj n) \<Rightarrow> shape DEFAULT_NOTES n | _ \<Rightarrow> False)
     \<and> (case map_of st (js ''log'') of Some (JArr es) \<Rightarrow> list_all migrated_entry es | _ \<Rightarrow> False)"

text \<open>
  The two fields of an entry that decide its earned XP, read as the data model types
  them: the number \<open>xpPotential\<close>, as a rational when it is finite, and the test
  \<^verbatim>\<open>completed == true\<close>. An entry is \<open>scored\<close> when it is an object whose \<open>xpPotential\<close> is a
  whole number and whose \<open>completed\<close> is a boolean.
\<close>

definition xpPotential_of :: "json \<Rightarrow> rat" where
  "xpPotential_of e = (case getp e (js ''xpPotential'') of Inr (Some (JNum (Fin r))) \<Rightarrow> r | _ \<Rightarrow> 0)"

definition scored :: "json \<Rightarrow> bool" where
  "scored e =
     (case e of
        JObj out \<Rightarrow>
          (case map_of out (js ''xpPotential'') of
             Some (JNum (Fin r)) \<Rightarrow> r = of_int \<lfloor>r\<rfloor>
           | _ \<Rightarrow> False)
          \<and> is_boolean (map_of out (js ''completed''))
      | _ \<Rightarrow> False)"

definition completed_of :: "json \<Rightarrow> bool" where
  "completed_of e = (getp e (js ''completed'') = Inr (Some (JBool True)))"

text \<open>
  A value of an edited baseline object coerces to a number when \<^verbatim>\<open>Number(v)\<close> neither
  throws nor gives \<open>NaN\<close>; \<open>clamped_score\<close> is what the loop of \<open>editBaselines\<close> stores for
  such a value.
\<close>

definition score_of :: "runtime \<Rightarrow> json \<Rightarrow> num option" where
  "score_of rt v =
     (case ToNumber rt (Some v) of Inr n \<Rightarrow> if n = NaN then None else Some n | Inl e \<Rightarrow> None)"

definition clamped_score :: "runtime \<Rightarrow> json \<Rightarrow> json" where
  "clamped_score rt v =
     (case score_of rt v of Some n \<Rightarrow> JNum (clamp n (Fin 0) (Fin 10)) | None \<Rightarrow> v)"

definition in_range :: "json \<Rightarrow> bool" where
  "in_range x = (case x of JNum (Fin y) \<Rightarrow> 0 \<le> y \<and> y \<le> 10 | _ \<Rightarrow> False)"

text \<open>
  A value is \<open>storable\<close> when \<^verbatim>\<open>JSON.stringify\<close> followed by \<^verbatim>\<open>JSON.parse\<close> gives it back:
  every number in it is finite and is not negative zero.
\<close>

fun storable :: "json \<Rightarrow> bool"
  and storable_list :: "json list \<Rightarrow> bool"
  and storable_props :: "obj \<Rightarrow> bool" where
  "storable (JNum n) = (case n of Fin r \<Rightarrow> True | _ \<Rightarrow> False)"
| "storable (JArr xs) = storable_list xs"
| "storable (JObj m) = storable_props m"
| "storable JNull = True"
| "storable (JBool b) = True"
| "storable (JStr s) = True"
| "storable_list [] = True"
| "storable_list (x # xs) = (storable x \<and> storable_list xs)"
| "storable_props [] = True"
| "storable_props ((k, v) # ps) = (storable v \<and> storable_props ps)"

section \<open>Facts about strings and property lists\<close>

lemma js_eq_iff [simp]: "js a = js b \<longleftrightarrow> a = b"
  by (simp add: js_def inj_on_def)

lemma js_Nil_iff [simp]: "js a = [] \<longleftrightarrow> a = []" "[] = js a \<longleftrightarrow> a = []"
  by (auto simp: js_def)

lemma map_of_assign_fun: "map_of (assign out k v) = (map_of out)(k \<mapsto> v)"
  by (simp add: assign_def update_conv')

lemma map_of_assign [simp]: "map_of (assign out k v) k' = (if k' = k then Some v else map_of out k')"
  by (simp add: map_of_assign_fun)

lemma distinct_assign [simp]: "distinct (map fst out) \<Longrightarrow> distinct (map fst (assign out k v))"
  by (simp add: assign_def distinct_update)

lemma assign_triv: "map_of out k = Some v \<Longrightarrow> assign out k v = out"
  by (simp add: assign_def update_triv)

lemma assign_new: "k \<notin> fst ` set out \<Longrightarrow> assign out k v = out @ [(k, v)]"
  unfolding assign_def by (induction out) auto

lemma assign_mid:
  "k \<notin> fst ` set p \<Longrightarrow> assign (p @ (k, w) # q) k v = p @ (k, v) # q"
  unfolding assign_def by (induction p) auto

lemma keys_assign:
  "map fst (assign out k v) = (if k \<in> fst ` set out then map fst out else map fst out @ [k])"
  unfolding assign_def by (simp add: update_keys)

lemma spread_append: "spread out (xs @ ys) = spread (spread out xs) ys"
  by (induction out xs rule: spread.induct) auto

lemma spread_fresh:
  "distinct (map fst ys) \<Longrightarrow> fst ` set xs \<inter> fst ` set ys = {} \<Longrightarrow> spread xs ys = xs @ ys"
proof (induction ys arbitrary: xs)
  case Nil
  then show ?case by simp
next
  case (Cons p ys)
  obtain k v where p: "p = (k, v)" by (cases p)
  from Cons.prems p have "assign xs k v = xs @ [(k, v)]"
    by (intro assign_new) auto
  moreover from Cons.prems p have "spread (xs @ [(k, v)]) ys = (xs @ [(k, v)]) @ ys"
    by (intro Cons.IH) auto
  ultimately show ?case using p by simp
qed

lemma spread_Nil: "distinct (map fst ps) \<Longrightarrow> spread [] ps = ps"
  using spread_fresh [of ps "[]"] by simp

lemma spread_over:
  "distinct (map fst (p @ xs)) \<Longrightarrow> map fst out = map fst xs \<Longrightarrow> spread (p @ out) xs = p @ xs"
proof (induction xs arbitrary: p out)
  case Nil
  then show ?case by simp
next
  case (Cons x xs)
  obtain k v where x: "x = (k, v)" by (cases x)
  from Cons.prems x obtain w out' where out: "out = (k, w) # out'" "map fst out' = map fst xs"
    by (cases out) auto
  from Cons.prems x have "k \<notin> fst ` set p" by auto
  then have "assign (p @ out) k v = (p @ [(k, v)]) @ out'"
    using out by (simp add: assign_mid)
  moreover from Cons.prems x out have "spread ((p @ [(k, v)]) @ out') xs = (p @ [(k, v)]) @ xs"
    by (intro Cons.IH) auto
  ultimately show ?case using x by simp
qed

lemma spread_same:
  assumes "distinct (map fst st)" "take (length d) (map fst st) = map fst d"
  shows "spread d st = st"
proof -
  let ?xs = "take (length d) st" and ?ys = "drop (length d) st"
  have st: "st = ?xs @ ?ys" by simp
  have k: "map fst d = map fst ?xs" using assms(2) by (simp add: take_map)
  have "spread ([] @ d) ?xs = [] @ ?xs"
    using assms(1) k by (intro spread_over) (auto simp: take_map [symmetric])
  then have 1: "spread d ?xs = ?xs" by simp
  have "distinct (map fst ?xs @ map fst ?ys)"
    using assms(1) by (metis append_take_drop_id map_append)
  then have "spread ?xs ?ys = ?xs @ ?ys"
    by (intro spread_fresh) auto
  then show ?thesis using 1 spread_append [of d ?xs ?ys] by simp
qed

lemma distinct_spread: "distinct (map fst out) \<Longrightarrow> distinct (map fst (spread out ps))"
  by (induction out ps rule: spread.induct) auto

lemma keys_spread_prefix: "take (length out) (map fst (spread out ps)) = map fst out"
proof (induction out ps rule: spread.induct)
  case (1 out)
  then show ?case by simp
next
  case (2 out k v ps)
  have "take (length out) (take (length (assign out k v)) (map fst (spread (assign out k v) ps)))
      = take (length out) (map fst (assign out k v))"
    using 2 by simp
  moreover have "length out \<le> length (assign out k v)"
    by (metis keys_assign length_append length_map le_add1 order_refl)
  ultimately show ?case by (simp add: keys_assign min_def split: if_splits)
qed


section \<open>Facts about the migration of an entry\<close>

lemma map_of_nullish_assign_other [simp]:
  "k' \<noteq> k \<Longrightarrow> map_of (nullish_assign out k v) k' = map_of out k'"
  by (simp add: nullish_assign_def split: option.splits json.splits)

lemma filled_nullish_assign [simp]:
  "filled (nullish_assign out k (JStr s)) k' \<longleftrightarrow> k' = k \<or> filled out k'"
  by (auto simp: filled_def nullish_assign_def split: option.splits json.splits)

lemma distinct_nullish_assign [simp]:
  "distinct (map fst out) \<Longrightarrow> distinct (map fst (nullish_assign out k v))"
  by (simp add: nullish_assign_def split: option.splits json.splits)

lemma nullish_assign_id [simp]: "filled out k \<Longrightarrow> nullish_assign out k v = out"
  by (auto simp: filled_def nullish_assign_def split: option.splits json.splits)

lemma map_of_delete_eq [simp]:
  "map_of (AList.delete k out) k' = (if k' = k then None else map_of out k')"
  by (simp add: delete_conv')

lemma delete_absent: "map_of out k = None \<Longrightarrow> AList.delete k out = out"
  by (simp add: map_of_eq_None_iff)

lemma number_case: "is_number (Some (case v of Some (JNum n) \<Rightarrow> JNum n | _ \<Rightarrow> JNum (Fin 0)))"
  by (auto split: option.splits json.splits)

lemma assign_number:
  "is_number (map_of out k) \<Longrightarrow>
   assign out k (case map_of out k of Some (JNum n) \<Rightarrow> JNum n | _ \<Rightarrow> JNum (Fin 0)) = out"
  by (auto intro!: assign_triv split: option.splits json.splits)

lemma migrate_entry_migrated: "\<exists>out. migrate_entry e = JObj out \<and> migrated out"
proof -
  define o0 where "o0 = spread [] (props e)"
  define o1 where "o1 =
    (if \<not> is_number (map_of o0 (js ''xpPotential'')) \<and> is_number (map_of o0 (js ''xp''))
     then (case map_of o0 (js ''xp'') of Some x \<Rightarrow> assign o0 (js ''xpPotential'') x | None \<Rightarrow> o0)
     else o0)"
  define o2 where "o2 =
    (if \<not> is_boolean (map_of o1 (js ''completed'')) then assign o1 (js ''completed'') (JBool True)
     else o1)"
  define o3 where "o3 = AList.delete (js ''xp'') o2"
  define o4 where "o4 = assign o3 (js ''xpPotential'')
     (case map_of o3 (js ''xpPotential'') of Some (JNum n) \<Rightarrow> JNum n | _ \<Rightarrow> JNum (Fin 0))"
  define o5 where "o5 =
     nullish_assign (nullish_assign (nullish_assign (nullish_assign (nullish_assign
       (nullish_assign (nullish_assign o4 (js ''mood'') (JStr [])) (js ''sleepHrs'') (JStr []))
       (js ''difficulty'') (JStr [])) (js ''liked'') (JStr [])) (js ''challengeText'') (JStr []))
       (js ''answerText'') (JStr [])) (js ''insightText'') (JStr [])"
  have me: "migrate_entry e = JObj o5"
    by (simp only: migrate_entry_def Let_def o0_def o1_def o2_def o3_def o4_def o5_def)
  have "distinct (map fst o0)" by (simp add: o0_def distinct_spread)
  then have "distinct (map fst o1)" by (simp add: o1_def split: option.splits)
  then have d2: "distinct (map fst o2)" by (simp add: o2_def)
  have b2: "is_boolean (map_of o2 (js ''completed''))" by (simp add: o2_def)
  have d3: "distinct (map fst o3)" using d2 by (simp add: o3_def distinct_delete)
  have b3: "is_boolean (map_of o3 (js ''completed''))" using b2 by (simp add: o3_def)
  have x3: "map_of o3 (js ''xp'') = None" by (simp add: o3_def)
  have d4: "distinct (map fst o4)" using d3 by (simp add: o4_def)
  have b4: "is_boolean (map_of o4 (js ''completed''))" using b3 by (simp add: o4_def)
  have x4: "map_of o4 (js ''xp'') = None" using x3 by (simp add: o4_def)
  have n4: "is_number (map_of o4 (js ''xpPotential''))" by (simp add: o4_def number_case)
  have "migrated o5"
    unfolding migrated_def o5_def using d4 b4 x4 n4 by simp
  with me show ?thesis by blast
qed

lemma migrate_entry_fixed:
  assumes "migrated out"
  shows "migrate_entry (JObj out) = JObj out"
proof -
  from assms have d: "distinct (map fst out)"
    and n: "is_number (map_of out (js ''xpPotential''))"
    and b: "is_boolean (map_of out (js ''completed''))"
    and x: "map_of out (js ''xp'') = None"
    and f: "filled out (js ''mood'')" "filled out (js ''sleepHrs'')" "filled out (js ''difficulty'')"
      "filled out (js ''liked'')" "filled out (js ''challengeText'')" "filled out (js ''answerText'')"
      "filled out (js ''insightText'')"
    by (simp_all add: migrated_def)
  have s: "spread [] (props (JObj out)) = out" using d by (simp add: spread_Nil)
  show ?thesis
    unfolding migrate_entry_def s Let_def
    using n b x f by (simp add: delete_absent assign_number)
qed

lemma migrate_entry_idem: "migrate_entry (migrate_entry e) = migrate_entry e"
  using migrate_entry_migrated [of e] migrate_entry_fixed by auto

section \<open>Facts about the merge with the defaults\<close>

lemma clone_defaults:
  "structuredCloneSafe DEFAULT_STATE = DEFAULT_STATE"
  "structuredCloneSafe DEFAULT_BASELINES = DEFAULT_BASELINES"
  "structuredCloneSafe DEFAULT_NOTES = DEFAULT_NOTES"
  by (simp_all add: structuredCloneSafe_def DEFAULT_STATE_def DEFAULT_BASELINES_def DEFAULT_NOTES_def)

lemma migrated_entry_migrate [simp]: "migrated_entry (migrate_entry e)"
  using migrate_entry_migrated [of e] by (auto simp: migrated_entry_def)

lemma migrate_entry_fixed_json: "migrated_entry e \<Longrightarrow> migrate_entry e = e"
  by (auto simp: migrated_entry_def migrate_entry_fixed split: json.splits)

lemma map_migrate_fixed: "list_all migrated_entry es \<Longrightarrow> map migrate_entry es = es"
  by (induction es) (auto simp: migrate_entry_fixed_json)

lemma shape_refl: "distinct (map fst d) \<Longrightarrow> shape d d"
  by (simp add: shape_def)

lemma shape_assign [simp]: "shape d st \<Longrightarrow> shape d (assign st k v)"
proof -
  assume a: "shape d st"
  then have "length (take (length d) (map fst st)) = length (map fst d)"
    by (simp only: shape_def)
  then have "length d \<le> length st"
    by simp
  with a show ?thesis by (auto simp: shape_def keys_assign)
qed

lemma shape_spread: "distinct (map fst d) \<Longrightarrow> shape d (spread (spread [] d) ps)"
  by (simp add: shape_def spread_Nil distinct_spread keys_spread_prefix)

lemma spread_shape: "distinct (map fst d) \<Longrightarrow> shape d st \<Longrightarrow> spread (spread [] d) st = st"
  by (simp add: shape_def spread_Nil spread_same)

lemma distinct_DEFAULT_STATE: "distinct (map fst DEFAULT_STATE)"
  by (simp add: DEFAULT_STATE_def)

lemma distinct_DEFAULT_BASELINES: "distinct (map fst DEFAULT_BASELINES)"
  by (simp add: DEFAULT_BASELINES_def)

lemma distinct_DEFAULT_NOTES: "distinct (map fst DEFAULT_NOTES)"
  by (simp add: DEFAULT_NOTES_def)

lemma normal_DEFAULT_STATE: "normal_state DEFAULT_STATE"
proof -
  have "map_of DEFAULT_STATE (js ''baselines'') = Some (JObj DEFAULT_BASELINES)"
    "map_of DEFAULT_STATE (js ''notes'') = Some (JObj DEFAULT_NOTES)"
    "map_of DEFAULT_STATE (js ''log'') = Some (JArr [])"
    by (simp_all add: DEFAULT_STATE_def)
  then show ?thesis
    unfolding normal_state_def
    by (simp add: shape_refl distinct_DEFAULT_STATE distinct_DEFAULT_BASELINES distinct_DEFAULT_NOTES)
qed


lemma getp_JObj [simp]: "getp (JObj m) k = Inr (map_of m k)"
  by simp

lemma getp_nonnull: "parsed \<noteq> JNull \<Longrightarrow> \<exists>x. getp parsed k = Inr x"
  by (cases parsed) auto

lemma merge_defaults_shape:
  assumes "merge_defaults parsed = Inr m"
  shows "shape DEFAULT_STATE m
    \<and> (\<exists>b. map_of m (js ''baselines'') = Some (JObj b) \<and> shape DEFAULT_BASELINES b)
    \<and> (\<exists>n. map_of m (js ''notes'') = Some (JObj n) \<and> shape DEFAULT_NOTES n)
    \<and> (\<exists>es. map_of m (js ''log'') = Some (JArr es))"
  using assms
  unfolding merge_defaults_def bindE_def clone_defaults
  by (auto simp: shape_spread distinct_DEFAULT_STATE distinct_DEFAULT_BASELINES
      distinct_DEFAULT_NOTES split: sum.splits option.splits json.splits)

lemma loadState_try_normal:
  assumes "loadState_try raw = Inr st"
  shows "normal_state st"
proof (cases raw)
  case Absent
  with assms show ?thesis
    by (simp add: loadState_try_def clone_defaults normal_DEFAULT_STATE)
next
  case Unparsable
  with assms show ?thesis by (simp add: loadState_try_def)
next
  case (Parsed parsed)
  with assms obtain m where m: "merge_defaults parsed = Inr m"
    by (auto simp: loadState_try_def bindE_def split: sum.splits)
  from merge_defaults_shape [OF m] obtain b n es where
    sh: "shape DEFAULT_STATE m"
    and b: "map_of m (js ''baselines'') = Some (JObj b)" "shape DEFAULT_BASELINES b"
    and n: "map_of m (js ''notes'') = Some (JObj n)" "shape DEFAULT_NOTES n"
    and es: "map_of m (js ''log'') = Some (JArr es)"
    by blast
  from assms Parsed m es have st: "st = assign m (js ''log'') (JArr (map migrate_entry es))"
    by (simp add: loadState_try_def bindE_def)
  show ?thesis
    unfolding normal_state_def st using sh b n
    by (simp add: list_all_iff)
qed

lemma loadState_normal: "loadState raw = Inr st \<Longrightarrow> normal_state st"
  by (auto simp: loadState_def clone_defaults normal_DEFAULT_STATE loadState_try_normal
      split: sum.splits)

lemma normal_state_fixed:
  assumes "normal_state st"
  shows "loadState (Parsed (JObj st)) = Inr st"
proof -
  from assms obtain b n es where
    sh: "shape DEFAULT_STATE st"
    and b: "map_of st (js ''baselines'') = Some (JObj b)" "shape DEFAULT_BASELINES b"
    and n: "map_of st (js ''notes'') = Some (JObj n)" "shape DEFAULT_NOTES n"
    and es: "map_of st (js ''log'') = Some (JArr es)" "list_all migrated_entry es"
    by (auto simp: normal_state_def split: option.splits json.splits)
  have 1: "spread (spread [] DEFAULT_STATE) st = st"
    using sh by (simp add: spread_shape distinct_DEFAULT_STATE)
  have 2: "spread (spread [] DEFAULT_BASELINES) b = b"
    using b by (simp add: spread_shape distinct_DEFAULT_BASELINES)
  have 3: "spread (spread [] DEFAULT_NOTES) n = n"
    using n by (simp add: spread_shape distinct_DEFAULT_NOTES)
  have m: "merge_defaults (JObj st) = Inr st"
    unfolding merge_defaults_def bindE_def clone_defaults
    using b n es by (simp add: or_empty_def 1 2 3 assign_triv)
  show ?thesis
    unfolding loadState_def loadState_try_def
    using es by (simp add: m bindE_def map_migrate_fixed assign_triv)
qed





lemma loadState_log:
  "\<exists>st. loadState (Parsed parsed) = Inr st
     \<and> map_of st (js ''log'') =
         Some (JArr (map migrate_entry
                  (case getp parsed (js ''log'') of Inr (Some (JArr es)) \<Rightarrow> es | _ \<Rightarrow> [])))"
proof (cases "parsed = JNull")
  case True
  then show ?thesis
    by (simp add: loadState_def loadState_try_def merge_defaults_def bindE_def clone_defaults)
      (simp add: DEFAULT_STATE_def)
next
  case False
  from getp_nonnull [OF False] obtain pb pn pl where
    g: "getp parsed (js ''baselines'') = Inr pb" "getp parsed (js ''notes'') = Inr pn"
       "getp parsed (js ''log'') = Inr pl"
    by blast
  define es where "es = (case pl of Some (JArr es) \<Rightarrow> es | _ \<Rightarrow> [])"
  have pl: "(case pl of Some (JArr es) \<Rightarrow> JArr es | _ \<Rightarrow> JArr []) = JArr es"
    by (simp add: es_def split: option.splits json.splits)
  have "\<exists>m. merge_defaults parsed = Inr m \<and> map_of m (js ''log'') = Some (JArr es)"
    by (simp add: merge_defaults_def bindE_def g pl)
  then obtain m where m: "merge_defaults parsed = Inr m" "map_of m (js ''log'') = Some (JArr es)"
    by blast
  have "loadState (Parsed parsed) = Inr (assign m (js ''log'') (JArr (map migrate_entry es)))"
    by (simp add: loadState_def loadState_try_def bindE_def m)
  then show ?thesis
    by (simp add: g es_def)
qed


section \<open>Facts about the random draw\<close>

lemma splice1_in_range:
  assumes "0 \<le> i" "i < int (length a)"
  shows "splice1 a i = ([a ! nat i], take (nat i) a @ drop (Suc (nat i)) a)"
proof -
  from assms have "nat i < length a" by simp
  then have "take 1 (drop (nat i) a) = [a ! nat i]"
    using nth_take nth_via_drop list_eq_iff_nth_eq by fastforce
  with assms show ?thesis by (simp add: splice1_def Let_def min_def)
qed

lemma random_index:
  fixes r :: rat
  assumes "0 \<le> r" "r < 1" "0 < n"
  shows "0 \<le> \<lfloor>r * of_nat n\<rfloor> \<and> \<lfloor>r * of_nat n\<rfloor> < int n"
proof -
  have "0 \<le> r * of_nat n" using assms by simp
  moreover have "r * of_nat n < of_nat n" using assms by simp
  ultimately show ?thesis by (simp add: floor_less_iff)
qed

lemma mset_remove_nth:
  "i < length a \<Longrightarrow> mset a = add_mset (a ! i) (mset (take i a @ drop (Suc i) a))"
proof -
  assume "i < length a"
  then have "a = take i a @ a ! i # drop (Suc i) a" by (rule id_take_nth_drop)
  then have "mset a = mset (take i a @ a ! i # drop (Suc i) a)" by (rule arg_cong)
  then show ?thesis by simp
qed

lemma pickRandom_loop_spec:
  assumes "\<forall>j. 0 \<le> rnd j \<and> rnd j < 1"
  shows "\<exists>ys. pickRandom_loop rnd j cnt a (map Some xs) = map Some (xs @ ys)
            \<and> length ys = min (cnt - length xs) (length a)
            \<and> mset ys \<subseteq># mset a"
proof (induction "length a" arbitrary: a xs j)
  case 0
  then show ?case by (simp add: pickRandom_loop.simps)
next
  case (Suc n)
  show ?case
  proof (cases "length xs < cnt")
    case False
    then show ?thesis by (simp add: pickRandom_loop.simps)
  next
    case True
    define i where "i = \<lfloor>rnd j * of_nat (length a)\<rfloor>"
    from Suc.hyps have ne: "a \<noteq> []" "0 < length a" by auto
    from random_index [of "rnd j" "length a"] assms ne
    have i: "0 \<le> i" "i < int (length a)" by (auto simp: i_def)
    then have ni: "nat i < length a" by simp
    let ?a' = "take (nat i) a @ drop (Suc (nat i)) a"
    have sp: "splice1 a i = ([a ! nat i], ?a')" using i by (rule splice1_in_range)
    have len: "n = length ?a'" using Suc.hyps ni by simp
    from Suc.hyps(1) [OF len, where xs = "xs @ [a ! nat i]" and j = "Suc j"] obtain ys where
      ys: "pickRandom_loop rnd (Suc j) cnt ?a' (map Some (xs @ [a ! nat i])) = map Some ((xs @ [a ! nat i]) @ ys)"
        "length ys = min (cnt - length (xs @ [a ! nat i])) (length ?a')"
        "mset ys \<subseteq># mset ?a'"
      by blast
    have step: "pickRandom_loop rnd j cnt a (map Some xs)
        = pickRandom_loop rnd (Suc j) cnt ?a' (map Some (xs @ [a ! nat i]))"
      using True ne sp by (subst pickRandom_loop.simps) (simp add: i_def [symmetric] Let_def)
    have "pickRandom_loop rnd j cnt a (map Some xs) = map Some (xs @ (a ! nat i # ys))"
      using step ys(1) by simp
    moreover have "length (a ! nat i # ys) = min (cnt - length xs) (length a)"
      using ys(2) True ni len Suc.hyps(2) by (auto simp: min_def)
    moreover have "mset (a ! nat i # ys) \<subseteq># mset a"
      using ys(3) mset_remove_nth [OF ni] by simp
    ultimately show ?thesis by blast
  qed
qed

lemma sub_mset_distinct: "mset ys \<subseteq># mset xs \<Longrightarrow> distinct xs \<Longrightarrow> distinct ys"
proof -
  assume sub: "mset ys \<subseteq># mset xs" and d: "distinct xs"
  from sub obtain z where z: "mset xs = mset ys + z"
    by (auto simp: mset_subset_eq_exists_conv)
  obtain zs where zs: "mset zs = z" using ex_mset by blast
  from z zs have "mset xs = mset (ys @ zs)" by simp
  with d have "distinct (ys @ zs)" by (metis mset_eq_imp_distinct_iff)
  then show ?thesis by simp
qed

lemma sub_mset_full: "mset ys \<subseteq># mset xs \<Longrightarrow> length ys = length xs \<Longrightarrow> mset ys = mset xs"
proof -
  assume sub: "mset ys \<subseteq># mset xs" and l: "length ys = length xs"
  from sub obtain z where z: "mset xs = mset ys + z"
    by (auto simp: mset_subset_eq_exists_conv)
  then have "size (mset xs) = size (mset ys) + size z" by simp
  with l have "z = {#}" by simp
  with z show ?thesis by simp
qed


lemma pickRandom_example:
  "pickRandom (\<lambda>j. 1 / 2) [js ''Vocabulary'', js ''Quick Math'', js ''Visualization''] 2
     = [Some (js ''Quick Math''), Some (js ''Visualization'')]"
  by code_simp

section \<open>Facts about saved values\<close>

lemma storable_props_iff: "storable_props m \<longleftrightarrow> (\<forall>v \<in> snd ` set m. storable v)"
  by (induction m) auto

lemma storable_list_iff: "storable_list xs \<longleftrightarrow> (\<forall>x \<in> set xs. storable x)"
  by (induction xs) auto

lemma resave_storable:
  "storable v \<Longrightarrow> resave v = v"
  "storable_list xs \<Longrightarrow> resave_list xs = xs"
  "storable_props m \<Longrightarrow> resave_props m = m"
  by (induction v and xs and m rule: resave_resave_list_resave_props.induct)
     (auto split: num.splits)

lemma map_of_resave_props: "map_of (resave_props m) k = map_option resave (map_of m k)"
  by (induction m) auto

lemma storable_map_of: "storable_props m \<Longrightarrow> map_of m k = Some v \<Longrightarrow> storable v"
  by (auto simp: storable_props_iff dest!: map_of_SomeD)

lemma storable_assign: "storable_props out \<Longrightarrow> storable v \<Longrightarrow> storable_props (assign out k v)"
  unfolding assign_def by (induction out) auto

lemma storable_spread: "storable_props out \<Longrightarrow> storable_props ps \<Longrightarrow> storable_props (spread out ps)"
  by (induction ps arbitrary: out) (auto simp: storable_assign)

lemma storable_delete: "storable_props out \<Longrightarrow> storable_props (AList.delete k out)"
  by (induction out) auto

lemma storable_nullish_assign:
  "storable_props out \<Longrightarrow> storable v \<Longrightarrow> storable_props (nullish_assign out k v)"
  by (auto simp: nullish_assign_def storable_assign split: option.splits json.splits)

lemma storable_props_props: "storable v \<Longrightarrow> storable_props (props v)"
proof (cases v)
  case (JArr xs)
  assume "storable v"
  with JArr have "\<forall>x \<in> set xs. storable x" by (simp add: storable_list_iff)
  then show ?thesis using JArr by (auto simp: storable_props_iff dest!: set_zip_rightD)
next
  case (JStr s)
  then show ?thesis by (auto simp: storable_props_iff dest!: set_zip_rightD)
qed simp_all

lemma storable_migrate_entry:
  assumes "storable e"
  shows "storable (migrate_entry e)"
proof -
  define o0 where "o0 = spread [] (props e)"
  define o1 where "o1 =
    (if \<not> is_number (map_of o0 (js ''xpPotential'')) \<and> is_number (map_of o0 (js ''xp''))
     then (case map_of o0 (js ''xp'') of Some x \<Rightarrow> assign o0 (js ''xpPotential'') x | None \<Rightarrow> o0)
     else o0)"
  define o2 where "o2 =
    (if \<not> is_boolean (map_of o1 (js ''completed'')) then assign o1 (js ''completed'') (JBool True)
     else o1)"
  define o3 where "o3 = AList.delete (js ''xp'') o2"
  define o4 where "o4 = assign o3 (js ''xpPotential'')
     (case map_of o3 (js ''xpPotential'') of Some (JNum n) \<Rightarrow> JNum n | _ \<Rightarrow> JNum (Fin 0))"
  define o5 where "o5 =
     nullish_assign (nullish_assign (nullish_assign (nullish_assign (nullish_assign
       (nullish_assign (nullish_assign o4 (js ''mood'') (JStr [])) (js ''sleepHrs'') (JStr []))
       (js ''difficulty'') (JStr [])) (js ''liked'') (JStr [])) (js ''challengeText'') (JStr []))
       (js ''answerText'') (JStr [])) (js ''insightText'') (JStr [])"
  have me: "migrate_entry e = JObj o5"
    by (simp only: migrate_entry_def Let_def o0_def o1_def o2_def o3_def o4_def o5_def)
  have s0: "storable_props o0"
    unfolding o0_def using assms by (intro storable_spread storable_props_props) simp_all
  have s1: "storable_props o1"
    unfolding o1_def using s0 by (auto split: option.splits intro: storable_assign storable_map_of)
  have s2: "storable_props o2"
    unfolding o2_def using s1 by (auto intro: storable_assign)
  have s3: "storable_props o3"
    unfolding o3_def using s2 by (rule storable_delete)
  have "storable (case map_of o3 (js ''xpPotential'') of Some (JNum n) \<Rightarrow> JNum n | _ \<Rightarrow> JNum (Fin 0))"
    using storable_map_of [OF s3, of "js ''xpPotential''"]
    by (auto split: option.splits json.splits)
  with s3 have s4: "storable_props o4"
    unfolding o4_def by (rule storable_assign)
  have s5: "storable_props o5"
    unfolding o5_def using s4 by (intro storable_nullish_assign) simp_all
  then show ?thesis by (simp add: me)
qed

lemma storable_or_empty:
  "(\<And>v. x = Some v \<Longrightarrow> storable v) \<Longrightarrow> storable (or_empty x)"
  by (auto simp: or_empty_def split: option.splits)

lemma storable_defaults:
  "storable_props DEFAULT_BASELINES" "storable_props DEFAULT_NOTES" "storable_props DEFAULT_STATE"
  by (simp_all add: DEFAULT_BASELINES_def DEFAULT_NOTES_def DEFAULT_STATE_def)

lemma getp_cases:
  "getp v k = Inr (Some w) \<Longrightarrow> (\<exists>n. w = JNum (Fin (of_nat n))) \<or> map_of (props v) k = Some w"
  by (cases v) (auto split: if_splits)

lemma storable_getp:
  assumes "storable v" and "getp v k = Inr (Some w)"
  shows "storable w"
proof -
  from assms(1) have "storable_props (props v)" by (rule storable_props_props)
  with getp_cases [OF assms(2)] show ?thesis by (auto dest: storable_map_of)
qed

lemma storable_merge_defaults:
  assumes "storable parsed" and "merge_defaults parsed = Inr st"
  shows "storable_props st"
proof -
  from assms(2) obtain pb pn pl where g: "getp parsed (js ''baselines'') = Inr pb"
    "getp parsed (js ''notes'') = Inr pn" "getp parsed (js ''log'') = Inr pl"
    and st: "st = assign
             (assign
               (assign
                 (spread (spread [] DEFAULT_STATE) (props parsed))
                 (js ''baselines'')
                 (JObj (spread (spread [] DEFAULT_BASELINES) (props (or_empty pb)))))
               (js ''notes'')
               (JObj (spread (spread [] DEFAULT_NOTES) (props (or_empty pn)))))
             (js ''log'')
             (case pl of Some (JArr es) \<Rightarrow> JArr es | _ \<Rightarrow> JArr [])"
    by (auto simp: merge_defaults_def bindE_def clone_defaults split: sum.splits)
  have b: "storable (or_empty pb)" using g(1) assms(1) by (intro storable_or_empty) (auto dest: storable_getp)
  have n: "storable (or_empty pn)" using g(2) assms(1) by (intro storable_or_empty) (auto dest: storable_getp)
  have l: "storable (case pl of Some (JArr es) \<Rightarrow> JArr es | _ \<Rightarrow> JArr [])"
    using g(3) assms(1) by (auto split: option.splits json.splits dest: storable_getp)
  have sb: "storable (JObj (spread (spread [] DEFAULT_BASELINES) (props (or_empty pb))))"
    using b by (simp add: storable_spread storable_props_props storable_defaults)
  have sn: "storable (JObj (spread (spread [] DEFAULT_NOTES) (props (or_empty pn))))"
    using n by (simp add: storable_spread storable_props_props storable_defaults)
  have "storable_props (spread (spread [] DEFAULT_STATE) (props parsed))"
    using assms(1) by (simp add: storable_spread storable_props_props storable_defaults)
  then show ?thesis
    unfolding st using sb sn l by (intro storable_assign)
qed

lemma storable_loadState:
  assumes "case raw of Parsed p \<Rightarrow> storable p | _ \<Rightarrow> True" and "loadState raw = Inr st"
  shows "storable_props st"
proof (cases "loadState_try raw")
  case (Inl e)
  with assms(2) show ?thesis by (simp add: loadState_def clone_defaults storable_defaults)
next
  case (Inr st')
  with assms(2) have eq: "st' = st" by (simp add: loadState_def)
  show ?thesis
  proof (cases raw)
    case Absent
    with Inr eq show ?thesis by (simp add: loadState_try_def clone_defaults storable_defaults)
  next
    case Unparsable
    with Inr show ?thesis by (simp add: loadState_try_def)
  next
    case (Parsed p)
    with assms(1) have p: "storable p" by simp
    from Inr Parsed eq obtain m es where m: "merge_defaults p = Inr m"
      "map_of m (js ''log'') = Some (JArr es)" "st = assign m (js ''log'') (JArr (map migrate_entry es))"
      by (auto simp: loadState_try_def bindE_def split: sum.splits option.splits json.splits)
    from p m(1) have sm: "storable_props m" by (rule storable_merge_defaults)
    from storable_map_of [OF sm m(2)] have "\<forall>x \<in> set es. storable x" by (simp add: storable_list_iff)
    then have "storable (JArr (map migrate_entry es))"
      by (simp add: storable_list_iff storable_migrate_entry)
    with sm show ?thesis unfolding m(3) by (rule storable_assign)
  qed
qed

section \<open>Facts about the arithmetic of doubles\<close>

text \<open>An integer of magnitude up to \<open>2\<^sup>5\<^sup>3\<close> is a double, so rounding leaves it as it is.\<close>

lemma round_half_even_int: "round_half_even (of_int m) = m"
  by (simp add: round_half_even_def Let_def)

lemma pow2_pos: "0 < pow2 k"
  by (simp add: pow2_def)

lemma ilog2_int: "0 < k \<Longrightarrow> ilog2 (of_int k) = bitlen k - 1"
  by (simp add: ilog2_def)

lemma round_double_int:
  assumes "\<bar>k\<bar> \<le> 2 ^ 53"
  shows "round_double (of_int k) = Fin (of_int k)"
proof (cases "k = 0")
  case True
  then show ?thesis by (simp add: round_double_def)
next
  case False
  define a where "a = \<bar>k\<bar>"
  have a: "0 < a" "a \<le> 2 ^ 53" using False assms by (simp_all add: a_def)
  define e where "e = bitlen a - 1"
  have b: "2 ^ nat e \<le> a" "a < 2 ^ nat (e + 1)"
    using bitlen_bounds [OF a(1)] by (simp_all add: e_def)
  have e0: "0 \<le> e"
    using a(1) bitlen_nonneg [of a] bitlen_eq_zero_iff [of a] by (simp add: e_def)
  have e53: "e \<le> 53"
  proof (rule ccontr)
    assume "\<not> e \<le> 53"
    then have "54 \<le> nat e" by simp
    then have "(2::int) ^ 54 \<le> 2 ^ nat e" by (intro power_increasing) simp_all
    with b(1) a(2) show False by simp
  qed
  have il: "ilog2 \<bar>of_int k\<bar> = e"
    using ilog2_int [OF a(1)] by (simp add: a_def e_def)
  have mx: "max e (- 1022) = e" using e0 by simp
  obtain m :: int where m: "of_int k / pow2 (e - 52) = (of_int m :: rat)"
  proof (cases "e \<le> 52")
    case True
    then have "pow2 (e - 52) = 1 / 2 ^ nat (52 - e)"
      by (simp add: pow2_def)
    then have "of_int k / pow2 (e - 52) = (of_int (k * 2 ^ nat (52 - e)) :: rat)"
      by simp
    then show ?thesis by (rule that)
  next
    case False
    with e53 have e: "e = 53" by simp
    with b(1) a(2) have "a = 2 ^ 53" by simp
    then have "k = 2 ^ 53 \<or> k = - (2 ^ 53)" by (auto simp: a_def abs_if split: if_splits)
    then have "of_int k / pow2 (e - 52) = (of_int (k div 2) :: rat)"
      by (auto simp: e pow2_def)
    then show ?thesis by (rule that)
  qed
  have y: "of_int (round_half_even (of_int k / pow2 (e - 52))) * pow2 (e - 52) = (of_int k :: rat)"
    unfolding m round_half_even_int
    unfolding m [symmetric] using pow2_pos [of "e - 52"] by simp
  have bd: "\<bar>of_int k :: rat\<bar> \<le> 2 ^ 53"
    using assms by (metis of_int_abs of_int_le_iff of_int_numeral of_int_power)
  have big: "(2::rat) ^ 53 < pow2 1024" by (simp add: pow2_def)
  have "\<not> pow2 1024 \<le> (of_int k :: rat)" "\<not> (of_int k :: rat) \<le> - pow2 1024"
    using bd big by linarith+
  then show ?thesis
    using False by (simp add: round_double_def Let_def il mx y)
qed

lemma round_double_Ints:
  assumes "r \<in> \<int>" and "\<bar>r\<bar> \<le> 2 ^ 53"
  shows "round_double r = Fin r"
proof -
  from assms(1) obtain k :: int where k: "r = of_int k" by (auto elim: Ints_cases)
  with assms(2) have "(of_int \<bar>k\<bar> :: rat) \<le> of_int (2 ^ 53)" by simp
  then have "\<bar>k\<bar> \<le> 2 ^ 53" by (simp only: of_int_le_iff)
  then show ?thesis unfolding k by (rule round_double_int)
qed

lemma round_double_example: "round_double 9007199254740993 = Fin 9007199254740992"
proof -
  have b: "bitlen 9007199254740993 = 54"
    using bitlen_twopow_add_eq [of 1 53] by simp
  have il: "ilog2 9007199254740993 = 53"
    by (simp add: ilog2_def b)
  have fl: "\<lfloor>9007199254740993 / 2 :: rat\<rfloor> = 4503599627370496"
    by (rule floor_unique) simp_all
  have rh: "round_half_even (9007199254740993 / 2) = 4503599627370496"
    by (simp add: round_half_even_def Let_def fl)
  show ?thesis
    by (simp add: round_double_def Let_def il pow2_def rh)
qed

section \<open>Facts about earned XP\<close>

lemma or_zero_Fin [simp]: "or_zero (Fin r) = Fin r"
  by (simp add: or_zero_def)

lemma scored_fields:
  assumes "scored e"
  obtains out r b where "e = JObj out"
    "map_of out (js ''xpPotential'') = Some (JNum (Fin r))" "r \<in> \<int>"
    "map_of out (js ''completed'') = Some (JBool b)"
proof -
  from assms obtain out where out: "e = JObj out"
    "case map_of out (js ''xpPotential'') of Some (JNum (Fin r)) \<Rightarrow> r = of_int \<lfloor>r\<rfloor> | _ \<Rightarrow> False"
    "is_boolean (map_of out (js ''completed''))"
    by (auto simp: scored_def split: json.splits)
  from out(2) obtain r where r: "map_of out (js ''xpPotential'') = Some (JNum (Fin r))" "r = of_int \<lfloor>r\<rfloor>"
    by (auto split: option.splits json.splits num.splits)
  from r(2) have "r \<in> \<int>" by (metis Ints_of_int)
  moreover from out obtain b where "map_of out (js ''completed'') = Some (JBool b)"
    by (cases "map_of out (js ''completed'')" rule: is_boolean.cases) auto
  ultimately show ?thesis using out(1) r(1) that by blast
qed

lemma scored_Ints: "scored e \<Longrightarrow> xpPotential_of e \<in> \<int>"
  by (erule scored_fields) (simp add: xpPotential_of_def)

lemma earned_scored:
  assumes "scored e"
  shows "earned rt e = Inr (Fin (if completed_of e then xpPotential_of e else 0))"
proof -
  from assms obtain out r b where "e = JObj out"
    "map_of out (js ''xpPotential'') = Some (JNum (Fin r))" "r \<in> \<int>"
    "map_of out (js ''completed'') = Some (JBool b)"
    by (rule scored_fields)
  then show ?thesis
    by (simp add: earned_def bindE_def completed_of_def xpPotential_of_def)
qed

lemma sum_filter_if:
  "sum_list (map f (filter P es)) = (\<Sum>e\<leftarrow>es. if P e then f e else (0::rat))"
  by (induction es) simp_all

lemma reduce_xp_scored:
  assumes "list_all scored es" and "acc \<in> \<int>"
    and "\<bar>acc\<bar> + (\<Sum>e\<leftarrow>es. \<bar>xpPotential_of e\<bar>) \<le> 2 ^ 53"
  shows "reduce_xp rt es (Fin acc) = Inr (Fin (acc + sum_list (map xpPotential_of (filter completed_of es))))"
  using assms
proof (induction es arbitrary: acc)
  case Nil
  then show ?case by simp
next
  case (Cons e es)
  define x where "x = (if completed_of e then xpPotential_of e else 0)"
  from Cons.prems(1) have se: "scored e" and ses: "list_all scored es" by simp_all
  have xi: "x \<in> \<int>" using scored_Ints [OF se] by (simp add: x_def)
  have xa: "\<bar>x\<bar> \<le> \<bar>xpPotential_of e\<bar>" by (simp add: x_def)
  have ai: "acc + x \<in> \<int>" using Cons.prems(2) xi by simp
  have nn: "0 \<le> (\<Sum>e\<leftarrow>es. \<bar>xpPotential_of e\<bar>)" by (rule sum_list_nonneg) auto
  have bd: "\<bar>acc + x\<bar> + (\<Sum>e\<leftarrow>es. \<bar>xpPotential_of e\<bar>) \<le> 2 ^ 53"
    using Cons.prems(3) xa by simp
  then have "\<bar>acc + x\<bar> \<le> 2 ^ 53" using nn by linarith
  with ai have rd: "round_double (acc + x) = Fin (acc + x)" by (rule round_double_Ints)
  have "reduce_xp rt (e # es) (Fin acc) = reduce_xp rt es (Fin (acc + x))"
    by (simp add: earned_scored [OF se] bindE_def rd x_def [symmetric])
  also have "\<dots> = Inr (Fin (acc + x + sum_list (map xpPotential_of (filter completed_of es))))"
    using ses ai bd by (rule Cons.IH)
  finally show ?case by (simp add: x_def)
qed

lemma calcXP_scored:
  assumes "map_of state (js ''log'') = Some (JArr es)" and "list_all scored es"
    and "(\<Sum>e\<leftarrow>es. \<bar>xpPotential_of e\<bar>) \<le> 2 ^ 53"
  shows "calcXP rt state = Inr (Fin (sum_list (map xpPotential_of (filter completed_of es))))"
  using reduce_xp_scored [OF assms(2), of 0 rt] assms(1,3) by (simp add: calcXP_def)

lemma toggle_first_scored:
  assumes "list_all scored es"
  shows "\<exists>es'. toggle_first ident checked es = Inr es'
     \<and> list_all scored es'
     \<and> map xpPotential_of es' = map xpPotential_of es
     \<and> sum_list (map xpPotential_of (filter completed_of es'))
        = sum_list (map xpPotential_of (filter completed_of es))
          + (case List.find (\<lambda>e. getp e (js ''id'') = Inr (Some (JStr ident))) es of
               None \<Rightarrow> 0
             | Some e \<Rightarrow> if checked = completed_of e then 0
                         else if checked then xpPotential_of e else - xpPotential_of e)"
  using assms
proof (induction es)
  case Nil
  then show ?case by simp
next
  case (Cons e es)
  from Cons.prems have me: "scored e" and mes: "list_all scored es" by simp_all
  from me obtain out r b where e: "e = JObj out"
    "map_of out (js ''xpPotential'') = Some (JNum (Fin r))" "r \<in> \<int>"
    "map_of out (js ''completed'') = Some (JBool b)"
    by (rule scored_fields)
  show ?case
  proof (cases "getp e (js ''id'') = Inr (Some (JStr ident))")
    case True
    define e' where "e' = JObj (assign out (js ''completed'') (JBool checked))"
    have t: "toggle_first ident checked (e # es) = Inr (e' # es)"
      using True e(1) by (simp add: bindE_def e'_def)
    have m': "scored e'"
      using me e by (simp add: scored_def e'_def)
    have x': "xpPotential_of e' = xpPotential_of e" "completed_of e' = checked"
      using e by (simp_all add: xpPotential_of_def completed_of_def e'_def)
    show ?thesis
      unfolding t using True m' mes x' by simp
  next
    case False
    from Cons.IH [OF mes] obtain es' where
      es': "toggle_first ident checked es = Inr es'" "list_all scored es'"
        "map xpPotential_of es' = map xpPotential_of es"
        "sum_list (map xpPotential_of (filter completed_of es'))
        = sum_list (map xpPotential_of (filter completed_of es))
          + (case List.find (\<lambda>e. getp e (js ''id'') = Inr (Some (JStr ident))) es of
               None \<Rightarrow> 0
             | Some e \<Rightarrow> if checked = completed_of e then 0
                         else if checked then xpPotential_of e else - xpPotential_of e)"
      by blast
    have t: "toggle_first ident checked (e # es) = Inr (e # es')"
      using False e(1) es'(1) by (simp add: bindE_def)
    show ?thesis
      unfolding t using False me es'(2,3,4) by simp
  qed
qed

lemma sum_abs_map:
  "map f es' = map f es \<Longrightarrow> (\<Sum>e\<leftarrow>es'. \<bar>f e\<bar> :: rat) = (\<Sum>e\<leftarrow>es. \<bar>f e\<bar>)"
proof -
  assume "map f es' = map f es"
  then have "map abs (map f es') = map abs (map f es)" by simp
  then show ?thesis by (simp add: comp_def)
qed

lemma migrated_new_entry [simp]: "migrated_entry (new_entry uuid stamp title categories xp)"
  by (simp add: migrated_entry_def new_entry_def migrated_def filled_def)

lemma new_entry_fields [simp]:
  "getp (new_entry uuid stamp title categories xp) (js ''xpPotential'') = Inr (Some (JNum (or_zero xp)))"
  "getp (new_entry uuid stamp title categories xp) (js ''completed'') = Inr (Some (JBool False))"
  "getp (new_entry uuid stamp title categories xp) (js ''id'') = Inr (Some (JStr uuid))"
  by (simp_all add: new_entry_def)

section \<open>Facts about the core actions\<close>

lemma pickRandom_defined:
  assumes "\<forall>j. 0 \<le> rnd j \<and> rnd j < 1"
  shows "\<exists>ys. pickRandom rnd arr k = map Some ys"
  using pickRandom_loop_spec [OF assms, of 0 k arr "[]"] by (auto simp: pickRandom_def)

lemma addLogEntry_result:
  assumes "map_of state (js ''log'') = Some (JArr es)"
  shows "addLogEntry uuid stamp title cats xp state
     = Inr (assign state (js ''log'') (JArr (new_entry uuid stamp title cats xp # es)))"
  using assms by (simp add: addLogEntry_def)

lemma Object_keys_nonnull:
  "b \<noteq> JNull \<Longrightarrow> Object_keys (Some b) = Inr (map fst (props b))"
  by (cases b) (simp_all add: Object_keys_def bindE_def)

lemma runSession_result:
  assumes log: "map_of state (js ''log'') = Some (JArr es)"
    and base: "map_of state (js ''baselines'') = Some b" "b \<noteq> JNull"
    and rnd: "\<forall>j. 0 \<le> rnd j \<and> rnd j < 1"
  shows "\<exists>names. pickRandom rnd (map fst (props b)) cnt = map Some names
     \<and> runSession rnd uuid stamp kind cnt state
       = Inr (assign (assign state (js ''todayFocus'') (JStr (join [32, 8226, 32] names)))
                (js ''log'')
                (JArr (new_entry uuid stamp (JStr kind) (JArr (map JStr names)) (session_xp kind) # es)))"
proof -
  from pickRandom_defined [OF rnd] obtain names where
    p: "pickRandom rnd (map fst (props b)) cnt = map Some names" by blast
  have n: "map (\<lambda>p. case p of Some s \<Rightarrow> s | None \<Rightarrow> []) (map Some names) = names"
    by (induction names) simp_all
  have "None \<notin> set (map Some names)" by auto
  then have "runSession rnd uuid stamp kind cnt state
       = Inr (assign (assign state (js ''todayFocus'') (JStr (join [32, 8226, 32] names)))
                (js ''log'')
                (JArr (new_entry uuid stamp (JStr kind) (JArr (map JStr names)) (session_xp kind) # es)))"
    unfolding runSession_def base(1) Object_keys_nonnull [OF base(2)] bindE_def
    using log by (simp add: p comp_def Let_def addLogEntry_result del: set_map)
  with p show ?thesis by blast
qed

lemma assign_twice [simp]: "assign (assign out k v) k w = assign out k w"
  by (simp add: assign_def)

lemma setp_new_entry:
  "k \<noteq> js ''__proto__'' \<Longrightarrow>
   setp (new_entry uuid stamp title cats xp) k v
     = Inr (JObj (assign (props (new_entry uuid stamp title cats xp)) k v))"
  by (simp add: new_entry_def)

lemma setp_JObj: "k \<noteq> js ''__proto__'' \<Longrightarrow> setp (JObj m) k v = Inr (JObj (assign m k v))"
  by simp

lemma setp_own: "map_of m k \<noteq> None \<Longrightarrow> setp (JObj m) k v = Inr (JObj (assign m k v))"
  by auto

lemma setp_baseline:
  "setp (JObj b) category (JNum x)
     = Inr (JObj (if category = js ''__proto__'' \<and> map_of b category = None then b
                  else assign b category (JNum x)))"
  by auto

lemma setp_number: "\<exists>m'. setp (JObj m) k (JNum n) = Inr (JObj m')"
  by simp

lemma clamp_value:
  "clamp n (Fin 0) (Fin 10) =
     (case n of
        NaN \<Rightarrow> NaN
      | PInf \<Rightarrow> Fin 10
      | NInf \<Rightarrow> Fin 0
      | NZero \<Rightarrow> Fin 0
      | Fin r \<Rightarrow> Fin (if r < 0 then 0 else if 10 < r then 10 else r))"
  by (cases n) (auto simp: clamp_def Math_max_def Math_min_def)

lemma quickRetest_result:
  assumes log: "map_of state (js ''log'') = Some (JArr es)"
    and base: "map_of state (js ''baselines'') = Some (JObj b)"
    and val: "str_num rt newScore \<noteq> NaN"
    and old: "ToNumber rt (map_of b category) = Inr old"
  shows "quickRetest_onConfirm rt uuid stamp category newScore overwrite state
     = Inr (assign
             (if overwrite
              then assign state (js ''baselines'')
                     (JObj (if category = js ''__proto__'' \<and> map_of b category = None then b
                            else assign b category (JNum (clamp (str_num rt newScore) (Fin 0) (Fin 10)))))
              else state)
             (js ''log'')
             (JArr (JObj (assign
                           (assign
                              (props (new_entry uuid stamp (JStr (js ''Re-test'')) (JArr [JStr category])
                                        (Fin 6)))
                              (js ''answerText'')
                              (JStr (retest_text rt (clamp (str_num rt newScore) (Fin 0) (Fin 10)) old
                                       overwrite)))
                           (js ''completed'') (JBool True))
                    # es)))"
proof (cases overwrite)
  case True
  then show ?thesis
    unfolding quickRetest_onConfirm_def
    using log base val old
    by (simp add: bindE_def Let_def addLogEntry_result setp_new_entry setp_JObj setp_baseline
        del: setp.simps)
next
  case False
  then show ?thesis
    unfolding quickRetest_onConfirm_def
    using log base val old
    by (simp add: bindE_def Let_def addLogEntry_result setp_new_entry)
qed

lemma session_xp_values:
  "session_xp (js ''Daily Neural Roll'') = Fin 10"
  "session_xp (js ''Tri-Skill Sprint'') = Fin 18"
  "session_xp (js ''Full Circuit'') = Fin 25"
  by (simp_all add: session_xp_def)

section \<open>Facts about the baseline edit\<close>

lemma score_of_Some: "score_of rt v = Some n \<longleftrightarrow> ToNumber rt (Some v) = Inr n \<and> n \<noteq> NaN"
  by (auto simp: score_of_def split: sum.splits)

lemma edit_loop_ok:
  assumes "distinct (map fst (p @ es))" "list_all (\<lambda>(k, v). score_of rt v \<noteq> None) es"
  shows "edit_loop rt es (JObj (p @ es)) = Inr (JObj (p @ map (\<lambda>(k, v). (k, clamped_score rt v)) es))"
  using assms
proof (induction es arbitrary: p)
  case Nil
  then show ?case by simp
next
  case (Cons x es)
  obtain k v where x: "x = (k, v)" by (cases x)
  from Cons.prems(2) x obtain n where sn: "score_of rt v = Some n" by auto
  then have n: "ToNumber rt (Some v) = Inr n" "n \<noteq> NaN"
    by (simp_all add: score_of_Some)
  from sn have c: "clamped_score rt v = JNum (clamp n (Fin 0) (Fin 10))"
    by (simp add: clamped_score_def)
  from Cons.prems(1) x have "k \<notin> fst ` set p" by auto
  then have a: "assign (p @ (k, v) # es) k (JNum (clamp n (Fin 0) (Fin 10)))
      = (p @ [(k, JNum (clamp n (Fin 0) (Fin 10)))]) @ es"
    by (simp add: assign_mid)
  have own: "map_of (p @ (k, v) # es) k \<noteq> None"
    by (simp add: map_of_eq_None_iff)
  have "edit_loop rt es (JObj ((p @ [(k, JNum (clamp n (Fin 0) (Fin 10)))]) @ es))
      = Inr (JObj ((p @ [(k, JNum (clamp n (Fin 0) (Fin 10)))])
                   @ map (\<lambda>(k, v). (k, clamped_score rt v)) es))"
    using Cons.prems x by (intro Cons.IH) auto
  then show ?case
    unfolding x edit_loop.simps n(1) bindE_def setp_own [OF own]
    using n(2) c by (simp add: a)
qed

lemma edit_loop_reject:
  assumes "\<not> list_all (\<lambda>(k, v). score_of rt v \<noteq> None) es"
  shows "\<exists>e. edit_loop rt es (JObj ob) = Inl e"
  using assms
proof (induction es arbitrary: ob)
  case Nil
  then show ?case by simp
next
  case (Cons x es)
  obtain k v where x: "x = (k, v)" by (cases x)
  show ?case
  proof (cases "score_of rt v")
    case None
    then show ?thesis
      using x by (auto simp: score_of_def bindE_def split: sum.splits if_splits)
  next
    case (Some n)
    then have n: "ToNumber rt (Some v) = Inr n" "n \<noteq> NaN"
      by (simp_all add: score_of_Some)
    from Cons.prems x Some have r: "\<not> list_all (\<lambda>(k, v). score_of rt v \<noteq> None) es" by simp
    from setp_number obtain ob' where
      s: "setp (JObj ob) k (JNum (clamp n (Fin 0) (Fin 10))) = Inr (JObj ob')" by blast
    from Cons.IH [OF r] obtain e where "edit_loop rt es (JObj ob') = Inl e" by blast
    then show ?thesis
      using n s by (simp add: x bindE_def del: setp.simps)
  qed
qed

lemma clamped_in_range:
  assumes "score_of rt v \<noteq> None"
  shows "in_range (clamped_score rt v)"
proof -
  from assms obtain n where sn: "score_of rt v = Some n" by auto
  then have "n \<noteq> NaN" by (simp add: score_of_Some)
  then show ?thesis
    by (cases n) (simp_all add: clamped_score_def sn in_range_def clamp_value)
qed

section \<open>Facts about the clipboard text\<close>

lemma join_parts_strings: "join_parts rt (map JStr cs) = Inr cs"
  by (induction cs) (simp_all add: bindE_def)

section \<open>The state normalizer never throws\<close>

text \<open>
  C3. \<open>loadState\<close> returns a state for every stored input, and when nothing is stored or
  the stored text does not parse, that state is the built-in default state: default
  baselines, default notes, the default focus label and the empty log.
\<close>

theorem loadState_never_throws:
  "(\<exists>st. loadState raw = Inr st)
   \<and> loadState Absent = Inr DEFAULT_STATE
   \<and> loadState Unparsable = Inr DEFAULT_STATE
   \<and> DEFAULT_STATE =
       [(js ''baselines'', JObj DEFAULT_BASELINES), (js ''notes'', JObj DEFAULT_NOTES),
        (js ''todayFocus'', JStr [8212]), (js ''log'', JArr [])]"
proof -
  have "\<exists>st. loadState raw = Inr st"
    by (simp add: loadState_def split: sum.splits)
  moreover have "loadState Absent = Inr DEFAULT_STATE" "loadState Unparsable = Inr DEFAULT_STATE"
    by (simp_all add: loadState_def loadState_try_def clone_defaults)
  moreover have "DEFAULT_STATE =
       [(js ''baselines'', JObj DEFAULT_BASELINES), (js ''notes'', JObj DEFAULT_NOTES),
        (js ''todayFocus'', JStr [8212]), (js ''log'', JArr [])]"
    by (simp add: DEFAULT_STATE_def)
  ultimately show ?thesis by (intro conjI)
qed

section \<open>Normalising twice\<close>

text \<open>
  C1, as the specification states it, fails on a stored text with a number beyond the
  range of the doubles, such as \<^verbatim>\<open>{"log":[{"xpPotential":1e400}]}\<close>: \<^verbatim>\<open>JSON.parse\<close> reads the
  literal as \<open>Infinity\<close>, the first load keeps it as the \<open>xpPotential\<close> of the entry, the save
  writes it as \<^verbatim>\<open>null\<close>, and the next load turns that into \<open>0\<close>. So a field of a log entry
  changes on a load/save cycle.
\<close>

theorem loadState_drift:
  "\<exists>st st' e e'.
      loadState (Parsed (JObj [(js ''log'', JArr [JObj [(js ''xpPotential'', JNum PInf)]])])) = Inr st
    \<and> loadState (saveState st) = Inr st'
    \<and> map_of st (js ''log'') = Some (JArr [e])
    \<and> map_of st' (js ''log'') = Some (JArr [e'])
    \<and> getp e (js ''xpPotential'') = Inr (Some (JNum PInf))
    \<and> getp e' (js ''xpPotential'') = Inr (Some (JNum (Fin 0)))
    \<and> st' \<noteq> st"
proof -
  let ?p = "JObj [(js ''log'', JArr [JObj [(js ''xpPotential'', JNum PInf)]])]"
  let ?e = "migrate_entry (JObj [(js ''xpPotential'', JNum PInf)])"
  from loadState_log [of ?p] obtain st where
    st: "loadState (Parsed ?p) = Inr st" "map_of st (js ''log'') = Some (JArr [?e])"
    by auto
  have e: "?e = JObj [(js ''xpPotential'', JNum PInf), (js ''completed'', JBool True),
      (js ''mood'', JStr []), (js ''sleepHrs'', JStr []), (js ''difficulty'', JStr []),
      (js ''liked'', JStr []), (js ''challengeText'', JStr []), (js ''answerText'', JStr []),
      (js ''insightText'', JStr [])]"
    by code_simp
  have g: "getp (resave (JObj st)) (js ''log'') = Inr (Some (JArr [resave ?e]))"
    using st(2) by (simp add: map_of_resave_props)
  let ?e' = "migrate_entry (resave ?e)"
  from loadState_log [of "resave (JObj st)"] obtain st' where
    st': "loadState (saveState st) = Inr st'" "map_of st' (js ''log'') = Some (JArr [?e'])"
    unfolding g saveState_def by auto
  have e': "?e' = JObj [(js ''xpPotential'', JNum (Fin 0)), (js ''completed'', JBool True),
      (js ''mood'', JStr []), (js ''sleepHrs'', JStr []), (js ''difficulty'', JStr []),
      (js ''liked'', JStr []), (js ''challengeText'', JStr []), (js ''answerText'', JStr []),
      (js ''insightText'', JStr [])]"
    unfolding e by code_simp
  have x: "getp ?e (js ''xpPotential'') = Inr (Some (JNum PInf))"
    "getp ?e' (js ''xpPotential'') = Inr (Some (JNum (Fin 0)))"
    unfolding e' unfolding e by simp_all
  have "st' \<noteq> st"
  proof
    assume "st' = st"
    with st(2) st'(2) have "?e' = ?e" by simp
    with x show False by simp
  qed
  with st st' x show ?thesis by blast
qed

text \<open>
  C1, amended. \<open>loadState\<close> returns a state for every stored input, and normalising that
  state again returns the very same state. When every number of the stored value is finite
  and none is negative zero, the same holds of the state, \<open>saveState\<close> stores it as it is,
  and the load that follows returns it unchanged: no field of the state or of a log entry
  changes on a load/save cycle. The same holds whenever the loaded state is of this kind.
\<close>

theorem loadState_idempotent:
  "\<exists>st. loadState raw = Inr st
     \<and> loadState (Parsed (JObj st)) = Inr st
     \<and> ((case raw of Parsed p \<Rightarrow> storable p | _ \<Rightarrow> True) \<longrightarrow>
          storable (JObj st) \<and> saveState st = Parsed (JObj st) \<and> loadState (saveState st) = Inr st)
     \<and> (storable (JObj st) \<longrightarrow> loadState (saveState st) = Inr st)"
proof -
  have "\<exists>st. loadState raw = Inr st"
    by (simp add: loadState_def split: sum.splits)
  then obtain st where st: "loadState raw = Inr st" ..
  then have "normal_state st" by (rule loadState_normal)
  then have i: "loadState (Parsed (JObj st)) = Inr st" by (rule normal_state_fixed)
  have s: "saveState st = Parsed (JObj st)" if "storable (JObj st)"
    using resave_storable(1) [OF that] by (simp add: saveState_def)
  have p: "storable (JObj st)" if "case raw of Parsed p \<Rightarrow> storable p | _ \<Rightarrow> True"
    using storable_loadState [OF that st] by simp
  from st i s p show ?thesis by auto
qed

theorem loadState_idempotent_witness:
  "(case Parsed (JObj [(js ''todayFocus'', JStr (js ''Chess'')),
                       (js ''log'', JArr [JObj [(js ''xp'', JNum (Fin 12))]])])
      of Parsed p \<Rightarrow> storable p | _ \<Rightarrow> True)
   \<and> (\<exists>st. loadState (Parsed (JObj [(js ''todayFocus'', JStr (js ''Chess'')),
                                     (js ''log'', JArr [JObj [(js ''xp'', JNum (Fin 12))]])])) = Inr st
          \<and> loadState (saveState st) = Inr st)"
  using loadState_idempotent
    [of "Parsed (JObj [(js ''todayFocus'', JStr (js ''Chess'')),
                       (js ''log'', JArr [JObj [(js ''xp'', JNum (Fin 12))]])])"]
  by auto

section \<open>The merge with the defaults\<close>



section \<open>The migration of legacy entries\<close>



section \<open>The random draw\<close>

text \<open>
  C8. With every result of \<^verbatim>\<open>Math.random()\<close> in \<open>[0, 1)\<close>, \<open>pickRandom\<close> never pushes
  \<open>undefined\<close>: it returns \<open>min k n\<close> elements of the list, each taken from a different
  position, so they are members of the list and distinct when the list has no duplicates
  (as a list of skill names has); with \<open>k \<ge> n\<close> it returns all \<open>n\<close> elements.
\<close>

theorem pickRandom_draw:
  assumes "\<forall>j. 0 \<le> rnd j \<and> rnd j < 1"
  shows "\<exists>ys. pickRandom rnd arr k = map Some ys
           \<and> length ys = min k (length arr)
           \<and> mset ys \<subseteq># mset arr
           \<and> set ys \<subseteq> set arr
           \<and> (distinct arr \<longrightarrow> distinct ys)
           \<and> (length arr \<le> k \<longrightarrow> mset ys = mset arr)"
proof -
  from pickRandom_loop_spec [OF assms, of 0 k arr "[]"] obtain ys where
    ys: "pickRandom rnd arr k = map Some ys" "length ys = min k (length arr)"
      "mset ys \<subseteq># mset arr"
    by (auto simp: pickRandom_def)
  from ys(3) have "set ys \<subseteq> set arr" by (metis set_mset_mono set_mset_mset)
  moreover have "distinct ys" if "distinct arr" using ys(3) that by (rule sub_mset_distinct)
  moreover have "mset ys = mset arr" if "length arr \<le> k"
    using ys(3) ys(2) that by (intro sub_mset_full) (simp_all add: min_def)
  ultimately show ?thesis using ys by blast
qed

theorem pickRandom_draw_witness:
  "(\<forall>j::nat. (0::rat) \<le> 1 / 2 \<and> (1::rat) / 2 < 1)
   \<and> (\<exists>ys. pickRandom (\<lambda>j. 1 / 2) [js ''Vocabulary'', js ''Quick Math'', js ''Visualization''] 2
              = map Some ys
          \<and> length ys = 2 \<and> distinct ys
          \<and> set ys \<subseteq> {js ''Vocabulary'', js ''Quick Math'', js ''Visualization''})
   \<and> (\<exists>ys. pickRandom (\<lambda>j. 1 / 2) [js ''Vocabulary'', js ''Quick Math'', js ''Visualization''] 5
              = map Some ys
          \<and> mset ys = mset [js ''Vocabulary'', js ''Quick Math'', js ''Visualization''])"
proof -
  let ?rnd = "\<lambda>j::nat. 1 / 2 :: rat"
  let ?arr = "[js ''Vocabulary'', js ''Quick Math'', js ''Visualization'']"
  have r: "\<forall>j. 0 \<le> ?rnd j \<and> ?rnd j < 1" by simp
  have d: "distinct ?arr" by simp
  from pickRandom_draw [OF r, of ?arr 2] d obtain ys where
    "pickRandom ?rnd ?arr 2 = map Some ys" "length ys = 2" "distinct ys" "set ys \<subseteq> set ?arr"
    by auto
  moreover from pickRandom_draw [OF r, of ?arr 5] obtain zs where
    "pickRandom ?rnd ?arr 5 = map Some zs" "mset zs = mset ?arr"
    by auto
  ultimately show ?thesis by auto
qed

section \<open>Earned XP\<close>

text \<open>
  C4, as the specification states it, fails where the sum of the doubles is rounded. In
  a log with two completed entries whose \<open>xpPotential\<close> are \<open>2\<^sup>5\<^sup>3\<close> and \<open>1\<close>, the sum of the
  two is \<open>2\<^sup>5\<^sup>3 + 1\<close>, which is no double, and \<open>calcXP\<close> returns \<open>2\<^sup>5\<^sup>3\<close>. Unchecking the second
  entry leaves the total at \<open>2\<^sup>5\<^sup>3\<close>: it changes by \<open>0\<close> and not by the entry's \<open>xpPotential\<close>.
\<close>

theorem earned_xp_rounded:
  "calcXP \<lparr>num_str = \<lambda>n. [], str_num = \<lambda>s. NaN, obj_prim = \<lambda>v. Inl TypeError, fixed1 = \<lambda>n. []\<rparr>
     [(js ''log'',
       JArr [JObj [(js ''id'', JStr (js ''a'')), (js ''xpPotential'', JNum (Fin 9007199254740992)),
                   (js ''completed'', JBool True)],
             JObj [(js ''id'', JStr (js ''b'')), (js ''xpPotential'', JNum (Fin 1)),
                   (js ''completed'', JBool True)]])]
     = Inr (Fin 9007199254740992)
   \<and> sum_list (map xpPotential_of (filter completed_of
       [JObj [(js ''id'', JStr (js ''a'')), (js ''xpPotential'', JNum (Fin 9007199254740992)),
              (js ''completed'', JBool True)],
        JObj [(js ''id'', JStr (js ''b'')), (js ''xpPotential'', JNum (Fin 1)),
              (js ''completed'', JBool True)]]))
     = 9007199254740993
   \<and> (\<exists>state'.
        handleCompleteToggle (js ''b'') False
          [(js ''log'',
            JArr [JObj [(js ''id'', JStr (js ''a'')), (js ''xpPotential'', JNum (Fin 9007199254740992)),
                        (js ''completed'', JBool True)],
                  JObj [(js ''id'', JStr (js ''b'')), (js ''xpPotential'', JNum (Fin 1)),
                        (js ''completed'', JBool True)]])]
          = Inr state'
        \<and> calcXP \<lparr>num_str = \<lambda>n. [], str_num = \<lambda>s. NaN, obj_prim = \<lambda>v. Inl TypeError,
                    fixed1 = \<lambda>n. []\<rparr> state'
            = Inr (Fin 9007199254740992))
   \<and> xpPotential_of (JObj [(js ''id'', JStr (js ''b'')), (js ''xpPotential'', JNum (Fin 1)),
                            (js ''completed'', JBool True)]) = 1"
proof -
  have r: "round_double 9007199254740992 = Fin 9007199254740992"
    using round_double_int [of 9007199254740992] by simp
  show ?thesis
    by (simp add: calcXP_def earned_def bindE_def handleCompleteToggle_def xpPotential_of_def
        completed_of_def round_double_example r)
qed

text \<open>
  C4, amended. In a state whose log entries are objects with a whole number as
  \<open>xpPotential\<close> and a boolean \<open>completed\<close>, the magnitudes of the \<open>xpPotential\<close> adding up to
  \<open>2\<^sup>5\<^sup>3\<close> at most (the entries that the actions create have 6, 10, 18 or 25), no sum is
  rounded: \<open>calcXP\<close> is the sum of \<open>xpPotential\<close> over exactly the entries with
  \<open>completed == true\<close>, that is the sum over all entries of \<open>xpPotential\<close> if completed and
  \<open>0\<close> otherwise. \<open>handleCompleteToggle\<close> changes the flag of the first entry with the
  identifier of the checkbox, and the total then differs by exactly that entry's
  \<open>xpPotential\<close>: up when the flag goes from false to true, down when it goes from true to
  false, not at all when the flag keeps its value or no entry has the identifier.
\<close>

theorem earned_xp_total:
  assumes "map_of state (js ''log'') = Some (JArr es)" and "list_all scored es"
    and "(\<Sum>e\<leftarrow>es. \<bar>xpPotential_of e\<bar>) \<le> 2 ^ 53"
  shows "calcXP rt state = Inr (Fin (sum_list (map xpPotential_of (filter completed_of es))))
     \<and> calcXP rt state = Inr (Fin (\<Sum>e\<leftarrow>es. if completed_of e then xpPotential_of e else 0))
     \<and> (\<exists>state'. handleCompleteToggle ident checked state = Inr state'
           \<and> calcXP rt state' =
               Inr (Fin (sum_list (map xpPotential_of (filter completed_of es))
                    + (case List.find (\<lambda>e. getp e (js ''id'') = Inr (Some (JStr ident))) es of
                         None \<Rightarrow> 0
                       | Some e \<Rightarrow> if checked = completed_of e then 0
                                   else if checked then xpPotential_of e
                                   else - xpPotential_of e))))"
proof -
  have c: "calcXP rt state = Inr (Fin (sum_list (map xpPotential_of (filter completed_of es))))"
    using assms by (rule calcXP_scored)
  from toggle_first_scored [OF assms(2), of ident checked] obtain es' where
    es': "toggle_first ident checked es = Inr es'" "list_all scored es'"
      "map xpPotential_of es' = map xpPotential_of es"
      "sum_list (map xpPotential_of (filter completed_of es'))
        = sum_list (map xpPotential_of (filter completed_of es))
          + (case List.find (\<lambda>e. getp e (js ''id'') = Inr (Some (JStr ident))) es of
               None \<Rightarrow> 0
             | Some e \<Rightarrow> if checked = completed_of e then 0
                         else if checked then xpPotential_of e else - xpPotential_of e)"
    by blast
  let ?state' = "assign state (js ''log'') (JArr es')"
  have h: "handleCompleteToggle ident checked state = Inr ?state'"
    using assms(1) es'(1) by (simp add: handleCompleteToggle_def bindE_def)
  have b: "(\<Sum>e\<leftarrow>es'. \<bar>xpPotential_of e\<bar>) \<le> 2 ^ 53"
    using sum_abs_map [OF es'(3)] assms(3) by simp
  have l: "map_of ?state' (js ''log'') = Some (JArr es')" by simp
  have "calcXP rt ?state' = Inr (Fin (sum_list (map xpPotential_of (filter completed_of es'))))"
    using l es'(2) b by (rule calcXP_scored)
  with c h es'(4) show ?thesis by (simp add: sum_filter_if)
qed

theorem earned_xp_total_witness:
  "calcXP \<lparr>num_str = \<lambda>n. [], str_num = \<lambda>s. NaN, obj_prim = \<lambda>v. Inl TypeError, fixed1 = \<lambda>n. []\<rparr>
     [(js ''log'',
       JArr [JObj [(js ''id'', JStr (js ''a'')), (js ''xpPotential'', JNum (Fin 25)),
                   (js ''completed'', JBool True)],
             JObj [(js ''id'', JStr (js ''b'')), (js ''xpPotential'', JNum (Fin 10)),
                   (js ''completed'', JBool False)]])]
     = Inr (Fin 25)
   \<and> (\<exists>state'.
        handleCompleteToggle (js ''b'') True
          [(js ''log'',
            JArr [JObj [(js ''id'', JStr (js ''a'')), (js ''xpPotential'', JNum (Fin 25)),
                        (js ''completed'', JBool True)],
                  JObj [(js ''id'', JStr (js ''b'')), (js ''xpPotential'', JNum (Fin 10)),
                        (js ''completed'', JBool False)]])]
          = Inr state'
        \<and> calcXP \<lparr>num_str = \<lambda>n. [], str_num = \<lambda>s. NaN, obj_prim = \<lambda>v. Inl TypeError,
                    fixed1 = \<lambda>n. []\<rparr> state'
            = Inr (Fin 35))"
proof -
  let ?es = "[JObj [(js ''id'', JStr (js ''a'')), (js ''xpPotential'', JNum (Fin 25)),
                    (js ''completed'', JBool True)],
              JObj [(js ''id'', JStr (js ''b'')), (js ''xpPotential'', JNum (Fin 10)),
                    (js ''completed'', JBool False)]]"
  have 1: "map_of [(js ''log'', JArr ?es)] (js ''log'') = Some (JArr ?es)" by simp
  have 2: "list_all scored ?es" by (simp add: scored_def)
  have 3: "(\<Sum>e\<leftarrow>?es. \<bar>xpPotential_of e\<bar>) \<le> 2 ^ 53" by (simp add: xpPotential_of_def)
  from earned_xp_total [OF 1 2 3, of _ "js ''b''" True] show ?thesis
    by (simp add: xpPotential_of_def completed_of_def)
qed

section \<open>Newly created entries\<close>

text \<open>
  C6. \<open>addLogEntry\<close> puts at the head of the log an entry whose \<open>completed\<close> is \<open>false\<close> and
  whose \<open>xpPotential\<close> is the number it was given (\<open>0\<close> for \<open>NaN\<close> and for negative zero).
  \<open>runSession\<close> leaves at the head of the log an entry with the kind as title,
  \<open>completed\<close> equal to \<open>false\<close> and \<open>xpPotential\<close> equal to 10 for Daily Neural Roll, 18
  for Tri-Skill Sprint and 25 otherwise, which is Full Circuit. The confirm handler of
  \<open>quickRetest\<close> calls \<open>addLogEntry\<close>, which puts at the head of the log an entry with
  title Re-test, \<open>completed\<close> equal to \<open>false\<close> and \<open>xpPotential\<close> equal to 6; the same
  handler then stores the answer text and \<open>completed = true\<close> into that entry, so the
  entry it leaves has \<open>xpPotential\<close> equal to 6 and is completed.
\<close>

theorem new_entry_created:
  assumes "map_of state (js ''log'') = Some (JArr es)"
  shows "(\<exists>state' e. addLogEntry uuid stamp title cats xp state = Inr state'
            \<and> map_of state' (js ''log'') = Some (JArr (e # es))
            \<and> getp e (js ''completed'') = Inr (Some (JBool False))
            \<and> getp e (js ''xpPotential'')
                = Inr (Some (JNum (if xp = NaN \<or> xp = NZero then Fin 0 else xp))))
     \<and> (\<forall>b. map_of state (js ''baselines'') = Some b \<and> b \<noteq> JNull
               \<and> (\<forall>j. 0 \<le> rnd j \<and> rnd j < 1) \<longrightarrow>
           (\<exists>state' e. runSession rnd uuid stamp kind cnt state = Inr state'
              \<and> map_of state' (js ''log'') = Some (JArr (e # es))
              \<and> getp e (js ''title'') = Inr (Some (JStr kind))
              \<and> getp e (js ''completed'') = Inr (Some (JBool False))
              \<and> getp e (js ''xpPotential'')
                  = Inr (Some (JNum (if kind = js ''Daily Neural Roll'' then Fin 10
                                     else if kind = js ''Tri-Skill Sprint'' then Fin 18
                                     else Fin 25)))))
     \<and> (\<forall>b old. map_of state (js ''baselines'') = Some (JObj b)
               \<and> str_num rt newScore \<noteq> NaN
               \<and> ToNumber rt (map_of b category) = Inr old \<longrightarrow>
           (\<exists>s0 s1 e0 answer e1.
                map_of s0 (js ''log'') = Some (JArr es)
              \<and> addLogEntry uuid stamp (JStr (js ''Re-test'')) (JArr [JStr category]) (Fin 6) s0 = Inr s1
              \<and> map_of s1 (js ''log'') = Some (JArr (e0 # es))
              \<and> getp e0 (js ''title'') = Inr (Some (JStr (js ''Re-test'')))
              \<and> getp e0 (js ''completed'') = Inr (Some (JBool False))
              \<and> getp e0 (js ''xpPotential'') = Inr (Some (JNum (Fin 6)))
              \<and> bindE (setp e0 (js ''answerText'') (JStr answer))
                   (\<lambda>e. setp e (js ''completed'') (JBool True)) = Inr e1
              \<and> quickRetest_onConfirm rt uuid stamp category newScore overwrite state
                  = Inr (assign s1 (js ''log'') (JArr (e1 # es)))
              \<and> getp e1 (js ''title'') = Inr (Some (JStr (js ''Re-test'')))
              \<and> getp e1 (js ''completed'') = Inr (Some (JBool True))
              \<and> getp e1 (js ''xpPotential'') = Inr (Some (JNum (Fin 6)))))"
proof (intro conjI allI impI)
  have "or_zero xp = (if xp = NaN \<or> xp = NZero then Fin 0 else xp)"
    by (simp add: or_zero_def)
  then show "\<exists>state' e. addLogEntry uuid stamp title cats xp state = Inr state'
            \<and> map_of state' (js ''log'') = Some (JArr (e # es))
            \<and> getp e (js ''completed'') = Inr (Some (JBool False))
            \<and> getp e (js ''xpPotential'')
                = Inr (Some (JNum (if xp = NaN \<or> xp = NZero then Fin 0 else xp)))"
    using assms by (simp add: addLogEntry_result)
next
  fix b
  assume "map_of state (js ''baselines'') = Some b \<and> b \<noteq> JNull \<and> (\<forall>j. 0 \<le> rnd j \<and> rnd j < 1)"
  then have b: "map_of state (js ''baselines'') = Some b" "b \<noteq> JNull"
    and r: "\<forall>j. 0 \<le> rnd j \<and> rnd j < 1"
    by simp_all
  from runSession_result [OF assms b r, of cnt uuid stamp kind] obtain names where
    n: "runSession rnd uuid stamp kind cnt state
       = Inr (assign (assign state (js ''todayFocus'') (JStr (join [32, 8226, 32] names)))
                (js ''log'')
                (JArr (new_entry uuid stamp (JStr kind) (JArr (map JStr names)) (session_xp kind) # es)))"
    by blast
  have t: "getp (new_entry uuid stamp (JStr kind) (JArr (map JStr names)) (session_xp kind))
             (js ''title'') = Inr (Some (JStr kind))"
    by (simp add: new_entry_def)
  have x: "or_zero (session_xp kind)
      = (if kind = js ''Daily Neural Roll'' then Fin 10
         else if kind = js ''Tri-Skill Sprint'' then Fin 18 else Fin 25)"
    by (simp add: session_xp_def)
  show "\<exists>state' e. runSession rnd uuid stamp kind cnt state = Inr state'
              \<and> map_of state' (js ''log'') = Some (JArr (e # es))
              \<and> getp e (js ''title'') = Inr (Some (JStr kind))
              \<and> getp e (js ''completed'') = Inr (Some (JBool False))
              \<and> getp e (js ''xpPotential'')
                  = Inr (Some (JNum (if kind = js ''Daily Neural Roll'' then Fin 10
                                     else if kind = js ''Tri-Skill Sprint'' then Fin 18
                                     else Fin 25)))"
    unfolding n using t x by simp
next
  fix b old
  assume "map_of state (js ''baselines'') = Some (JObj b) \<and> str_num rt newScore \<noteq> NaN
               \<and> ToNumber rt (map_of b category) = Inr old"
  then have h: "map_of state (js ''baselines'') = Some (JObj b)" "str_num rt newScore \<noteq> NaN"
    "ToNumber rt (map_of b category) = Inr old"
    by simp_all
  define score where "score = clamp (str_num rt newScore) (Fin 0) (Fin 10)"
  define s0 where "s0 =
     (if overwrite
      then assign state (js ''baselines'')
             (JObj (if category = js ''__proto__'' \<and> map_of b category = None then b
                    else assign b category (JNum score)))
      else state)"
  define e0 where "e0 = new_entry uuid stamp (JStr (js ''Re-test'')) (JArr [JStr category]) (Fin 6)"
  define s1 where "s1 = assign s0 (js ''log'') (JArr (e0 # es))"
  define answer where "answer = retest_text rt score old overwrite"
  define e1 where "e1 = JObj (assign (assign (props e0) (js ''answerText'') (JStr answer))
                                (js ''completed'') (JBool True))"
  have l0: "map_of s0 (js ''log'') = Some (JArr es)"
    using assms by (simp add: s0_def)
  have a: "addLogEntry uuid stamp (JStr (js ''Re-test'')) (JArr [JStr category]) (Fin 6) s0 = Inr s1"
    unfolding s1_def e0_def using l0 by (rule addLogEntry_result)
  have l1: "map_of s1 (js ''log'') = Some (JArr (e0 # es))"
    by (simp add: s1_def)
  have f0: "getp e0 (js ''title'') = Inr (Some (JStr (js ''Re-test'')))"
    "getp e0 (js ''completed'') = Inr (Some (JBool False))"
    "getp e0 (js ''xpPotential'') = Inr (Some (JNum (Fin 6)))"
    by (simp_all add: e0_def new_entry_def)
  have st: "bindE (setp e0 (js ''answerText'') (JStr answer))
       (\<lambda>e. setp e (js ''completed'') (JBool True)) = Inr e1"
    by (simp add: e1_def e0_def setp_new_entry setp_JObj bindE_def del: setp.simps)
  have q: "quickRetest_onConfirm rt uuid stamp category newScore overwrite state
      = Inr (assign s1 (js ''log'') (JArr (e1 # es)))"
    unfolding quickRetest_result [OF assms h] s1_def s0_def e1_def e0_def answer_def score_def
    by (cases overwrite; cases "category = js ''__proto__'' \<and> map_of b category = None") simp_all
  have f1: "getp e1 (js ''title'') = Inr (Some (JStr (js ''Re-test'')))"
    "getp e1 (js ''completed'') = Inr (Some (JBool True))"
    "getp e1 (js ''xpPotential'') = Inr (Some (JNum (Fin 6)))"
    by (simp_all add: e1_def e0_def new_entry_def)
  from l0 a l1 f0 st q f1 show "\<exists>s0 s1 e0 answer e1.
                map_of s0 (js ''log'') = Some (JArr es)
              \<and> addLogEntry uuid stamp (JStr (js ''Re-test'')) (JArr [JStr category]) (Fin 6) s0 = Inr s1
              \<and> map_of s1 (js ''log'') = Some (JArr (e0 # es))
              \<and> getp e0 (js ''title'') = Inr (Some (JStr (js ''Re-test'')))
              \<and> getp e0 (js ''completed'') = Inr (Some (JBool False))
              \<and> getp e0 (js ''xpPotential'') = Inr (Some (JNum (Fin 6)))
              \<and> bindE (setp e0 (js ''answerText'') (JStr answer))
                   (\<lambda>e. setp e (js ''completed'') (JBool True)) = Inr e1
              \<and> quickRetest_onConfirm rt uuid stamp category newScore overwrite state
                  = Inr (assign s1 (js ''log'') (JArr (e1 # es)))
              \<and> getp e1 (js ''title'') = Inr (Some (JStr (js ''Re-test'')))
              \<and> getp e1 (js ''completed'') = Inr (Some (JBool True))
              \<and> getp e1 (js ''xpPotential'') = Inr (Some (JNum (Fin 6)))"
    by blast
qed

theorem new_entry_created_witness:
  "(\<exists>state' e.
      runSession (\<lambda>j. 1 / 2) (js ''id-1'') (js ''Nov 02'') (js ''Tri-Skill Sprint'') 3 DEFAULT_STATE
        = Inr state'
    \<and> map_of state' (js ''log'') = Some (JArr [e])
    \<and> getp e (js ''title'') = Inr (Some (JStr (js ''Tri-Skill Sprint'')))
    \<and> getp e (js ''completed'') = Inr (Some (JBool False))
    \<and> getp e (js ''xpPotential'') = Inr (Some (JNum (Fin 18))))
   \<and> (\<exists>state' e.
      runSession (\<lambda>j. 1 / 2) (js ''id-1'') (js ''Nov 02'') (js ''Daily Neural Roll'') 1 DEFAULT_STATE
        = Inr state'
    \<and> map_of state' (js ''log'') = Some (JArr [e])
    \<and> getp e (js ''completed'') = Inr (Some (JBool False))
    \<and> getp e (js ''xpPotential'') = Inr (Some (JNum (Fin 10))))
   \<and> (\<exists>state' e.
      runSession (\<lambda>j. 1 / 2) (js ''id-1'') (js ''Nov 02'') (js ''Full Circuit'') 5 DEFAULT_STATE
        = Inr state'
    \<and> map_of state' (js ''log'') = Some (JArr [e])
    \<and> getp e (js ''completed'') = Inr (Some (JBool False))
    \<and> getp e (js ''xpPotential'') = Inr (Some (JNum (Fin 25))))
   \<and> (\<exists>s0 s1 e0 state' e1.
      addLogEntry (js ''id-2'') (js ''Nov 02'') (JStr (js ''Re-test'')) (JArr [JStr (js ''Quick Math'')])
        (Fin 6) s0 = Inr s1
    \<and> map_of s1 (js ''log'') = Some (JArr [e0])
    \<and> getp e0 (js ''completed'') = Inr (Some (JBool False))
    \<and> getp e0 (js ''xpPotential'') = Inr (Some (JNum (Fin 6)))
    \<and> quickRetest_onConfirm
        \<lparr>num_str = \<lambda>n. [], str_num = \<lambda>s. if s = js ''7'' then Fin 7 else NaN,
          obj_prim = \<lambda>v. Inl TypeError, fixed1 = \<lambda>n. []\<rparr>
        (js ''id-2'') (js ''Nov 02'') (js ''Quick Math'') (js ''7'') False DEFAULT_STATE = Inr state'
    \<and> map_of state' (js ''log'') = Some (JArr [e1])
    \<and> getp e1 (js ''completed'') = Inr (Some (JBool True))
    \<and> getp e1 (js ''xpPotential'') = Inr (Some (JNum (Fin 6))))"
proof -
  have l: "map_of DEFAULT_STATE (js ''log'') = Some (JArr [])"
    and b: "map_of DEFAULT_STATE (js ''baselines'') = Some (JObj DEFAULT_BASELINES)"
    by (simp_all add: DEFAULT_STATE_def)
  let ?rnd = "\<lambda>j::nat. 1 / 2 :: rat"
  let ?rt = "\<lparr>num_str = \<lambda>n. [], str_num = \<lambda>s. if s = js ''7'' then Fin 7 else NaN,
          obj_prim = \<lambda>v. Inl TypeError, fixed1 = \<lambda>n. []\<rparr>"
  have r: "\<forall>j. 0 \<le> ?rnd j \<and> ?rnd j < 1" by simp
  have v: "str_num ?rt (js ''7'') \<noteq> NaN" by simp
  have old: "ToNumber ?rt (map_of DEFAULT_BASELINES (js ''Quick Math'')) = Inr (Fin (9 / 2))"
    by (simp add: DEFAULT_BASELINES_def)
  note t = new_entry_created [OF l, where rnd = ?rnd and uuid = "js ''id-1''"
      and stamp = "js ''Nov 02''"]
  from t [where kind = "js ''Tri-Skill Sprint''" and cnt = 3, THEN conjunct2, THEN conjunct1,
      rule_format, of "JObj DEFAULT_BASELINES"] b r
  have 1: "\<exists>state' e.
      runSession ?rnd (js ''id-1'') (js ''Nov 02'') (js ''Tri-Skill Sprint'') 3 DEFAULT_STATE
        = Inr state'
    \<and> map_of state' (js ''log'') = Some (JArr [e])
    \<and> getp e (js ''title'') = Inr (Some (JStr (js ''Tri-Skill Sprint'')))
    \<and> getp e (js ''completed'') = Inr (Some (JBool False))
    \<and> getp e (js ''xpPotential'') = Inr (Some (JNum (Fin 18)))"
    by simp
  from t [where kind = "js ''Daily Neural Roll''" and cnt = 1, THEN conjunct2, THEN conjunct1,
      rule_format, of "JObj DEFAULT_BASELINES"] b r
  have 2: "\<exists>state' e.
      runSession ?rnd (js ''id-1'') (js ''Nov 02'') (js ''Daily Neural Roll'') 1 DEFAULT_STATE
        = Inr state'
    \<and> map_of state' (js ''log'') = Some (JArr [e])
    \<and> getp e (js ''completed'') = Inr (Some (JBool False))
    \<and> getp e (js ''xpPotential'') = Inr (Some (JNum (Fin 10)))"
    by auto
  from t [where kind = "js ''Full Circuit''" and cnt = 5, THEN conjunct2, THEN conjunct1,
      rule_format, of "JObj DEFAULT_BASELINES"] b r
  have 3: "\<exists>state' e.
      runSession ?rnd (js ''id-1'') (js ''Nov 02'') (js ''Full Circuit'') 5 DEFAULT_STATE
        = Inr state'
    \<and> map_of state' (js ''log'') = Some (JArr [e])
    \<and> getp e (js ''completed'') = Inr (Some (JBool False))
    \<and> getp e (js ''xpPotential'') = Inr (Some (JNum (Fin 25)))"
    by auto
  from new_entry_created [OF l, where rt = ?rt and uuid = "js ''id-2''" and stamp = "js ''Nov 02''"
      and category = "js ''Quick Math''" and newScore = "js ''7''" and overwrite = False,
      THEN conjunct2, THEN conjunct2, rule_format, of DEFAULT_BASELINES "Fin (9 / 2)"] b v old
  obtain s0 s1 e0 e1 where
    "addLogEntry (js ''id-2'') (js ''Nov 02'') (JStr (js ''Re-test'')) (JArr [JStr (js ''Quick Math'')])
        (Fin 6) s0 = Inr s1"
    "map_of s1 (js ''log'') = Some (JArr [e0])"
    "getp e0 (js ''completed'') = Inr (Some (JBool False))"
    "getp e0 (js ''xpPotential'') = Inr (Some (JNum (Fin 6)))"
    "quickRetest_onConfirm ?rt (js ''id-2'') (js ''Nov 02'') (js ''Quick Math'') (js ''7'') False
        DEFAULT_STATE = Inr (assign s1 (js ''log'') (JArr [e1]))"
    "getp e1 (js ''completed'') = Inr (Some (JBool True))"
    "getp e1 (js ''xpPotential'') = Inr (Some (JNum (Fin 6)))"
    by blast
  then have 4: "\<exists>s0 s1 e0 state' e1.
      addLogEntry (js ''id-2'') (js ''Nov 02'') (JStr (js ''Re-test'')) (JArr [JStr (js ''Quick Math'')])
        (Fin 6) s0 = Inr s1
    \<and> map_of s1 (js ''log'') = Some (JArr [e0])
    \<and> getp e0 (js ''completed'') = Inr (Some (JBool False))
    \<and> getp e0 (js ''xpPotential'') = Inr (Some (JNum (Fin 6)))
    \<and> quickRetest_onConfirm ?rt (js ''id-2'') (js ''Nov 02'') (js ''Quick Math'') (js ''7'') False
        DEFAULT_STATE = Inr state'
    \<and> map_of state' (js ''log'') = Some (JArr [e1])
    \<and> getp e1 (js ''completed'') = Inr (Some (JBool True))
    \<and> getp e1 (js ''xpPotential'') = Inr (Some (JNum (Fin 6)))"
    by (intro exI [of _ s0] exI [of _ s1] exI [of _ e0]
        exI [of _ "assign s1 (js ''log'') (JArr [e1])"] exI [of _ e1]) simp
  from 1 2 3 4 show ?thesis by (intro conjI)
qed

section \<open>The frame of a re-test\<close>




section \<open>Editing the baselines\<close>

text \<open>
  C7. For a submitted object: when every value coerces to a number, the handler stores
  the object with every value replaced by its number clamped to \<open>[0, 10]\<close>, so every
  stored score lies in that range, and reports nothing; when some value does not, the
  handler reports an exception and leaves the state, and with it every baseline, exactly
  as it was. A text that does not parse is rejected in the same way.
\<close>

theorem baseline_edit_all_or_nothing:
  assumes "distinct (map fst m)"
  shows "(list_all (\<lambda>(k, v). score_of rt v \<noteq> None) m \<longrightarrow>
            editBaselines_onConfirm rt (Some (JObj m)) state
              = (assign state (js ''baselines'') (JObj (map (\<lambda>(k, v). (k, clamped_score rt v)) m)), None)
            \<and> list_all (\<lambda>(k, x). in_range x) (map (\<lambda>(k, v). (k, clamped_score rt v)) m))
     \<and> (\<not> list_all (\<lambda>(k, v). score_of rt v \<noteq> None) m \<longrightarrow>
            (\<exists>e. editBaselines_onConfirm rt (Some (JObj m)) state = (state, Some e)))
     \<and> editBaselines_onConfirm rt None state = (state, Some SyntaxError)"
proof (intro conjI impI)
  assume ok: "list_all (\<lambda>(k, v). score_of rt v \<noteq> None) m"
  from edit_loop_ok [of "[]" m rt] assms ok
  have "edit_loop rt m (JObj m) = Inr (JObj (map (\<lambda>(k, v). (k, clamped_score rt v)) m))"
    by simp
  then show "editBaselines_onConfirm rt (Some (JObj m)) state
      = (assign state (js ''baselines'') (JObj (map (\<lambda>(k, v). (k, clamped_score rt v)) m)), None)"
    by (simp add: editBaselines_onConfirm_def bindE_def)
  from ok show "list_all (\<lambda>(k, x). in_range x) (map (\<lambda>(k, v). (k, clamped_score rt v)) m)"
    by (auto simp: list_all_iff clamped_in_range)
next
  assume "\<not> list_all (\<lambda>(k, v). score_of rt v \<noteq> None) m"
  from edit_loop_reject [OF this, of m] obtain e where "edit_loop rt m (JObj m) = Inl e" by blast
  then show "\<exists>e. editBaselines_onConfirm rt (Some (JObj m)) state = (state, Some e)"
    by (simp add: editBaselines_onConfirm_def bindE_def)
next
  show "editBaselines_onConfirm rt None state = (state, Some SyntaxError)"
    by (simp add: editBaselines_onConfirm_def)
qed


theorem baseline_edit_all_or_nothing_witness:
  "editBaselines_onConfirm
      \<lparr>num_str = \<lambda>n. [], str_num = \<lambda>s. if s = js ''7'' then Fin 7 else NaN,
        obj_prim = \<lambda>v. Inl TypeError, fixed1 = \<lambda>n. []\<rparr>
      (Some (JObj [(js ''Vocabulary'', JNum (Fin 12)), (js ''Quick Math'', JNum (Fin (- 3))),
                   (js ''Chess'', JStr (js ''7''))]))
      DEFAULT_STATE
    = (assign DEFAULT_STATE (js ''baselines'')
         (JObj [(js ''Vocabulary'', JNum (Fin 10)), (js ''Quick Math'', JNum (Fin 0)), (js ''Chess'', JNum (Fin 7))]),
       None)
   \<and> (\<exists>e. editBaselines_onConfirm
      \<lparr>num_str = \<lambda>n. [], str_num = \<lambda>s. if s = js ''7'' then Fin 7 else NaN,
        obj_prim = \<lambda>v. Inl TypeError, fixed1 = \<lambda>n. []\<rparr>
      (Some (JObj [(js ''Vocabulary'', JNum (Fin 5)), (js ''Quick Math'', JStr (js ''high''))]))
      DEFAULT_STATE
    = (DEFAULT_STATE, Some e))"
proof -
  let ?rt = "\<lparr>num_str = \<lambda>n. [], str_num = \<lambda>s. if s = js ''7'' then Fin 7 else NaN,
        obj_prim = \<lambda>v. Inl TypeError, fixed1 = \<lambda>n. []\<rparr>"
  let ?m1 = "[(js ''Vocabulary'', JNum (Fin 12)), (js ''Quick Math'', JNum (Fin (- 3))),
                   (js ''Chess'', JStr (js ''7''))]"
  let ?m2 = "[(js ''Vocabulary'', JNum (Fin 5)), (js ''Quick Math'', JStr (js ''high''))]"
  have d1: "distinct (map fst ?m1)" and d2: "distinct (map fst ?m2)" by simp_all
  have s: "score_of ?rt (JNum (Fin 12)) = Some (Fin 12)"
    "score_of ?rt (JNum (Fin (- 3))) = Some (Fin (- 3))"
    "score_of ?rt (JStr (js ''7'')) = Some (Fin 7)" "score_of ?rt (JNum (Fin 5)) = Some (Fin 5)"
    "score_of ?rt (JStr (js ''high'')) = None"
    by (simp_all add: score_of_def)
  from baseline_edit_all_or_nothing [OF d1, of ?rt DEFAULT_STATE]
    baseline_edit_all_or_nothing [OF d2, of ?rt DEFAULT_STATE]
  show ?thesis
    by (simp add: s clamped_score_def clamp_value)
qed

section \<open>Clipboard text\<close>

text \<open>
  C9. For an entry whose title, time, metrics and free texts are strings, whose
  categories are strings too, whose \<open>completed\<close> is a boolean and whose \<open>xpPotential\<close> is a
  number, \<open>entryToClipboardText\<close> returns the lines of the header, then for each of the
  metrics \<open>mood\<close>, \<open>sleepHrs\<close>, \<open>difficulty\<close> and \<open>liked\<close> and each of the three free texts
  its line when the field is not empty and nothing when it is, joined by newlines: an
  empty field leaves no line, blank or other. So for an entry with empty \<open>mood\<close>,
  \<open>sleepHrs\<close> equal to \<open>7.5\<close>, empty \<open>difficulty\<close> and empty \<open>liked\<close>, the text has after
  the header the one metric line \<open>Sleep: 7.5 hrs\<close>, followed by the free texts that are
  not empty.
\<close>

theorem clipboard_omits_empty:
  assumes "map_of out (js ''title'') = Some (JStr title)"
    and "map_of out (js ''time'') = Some (JStr stamp)"
    and "map_of out (js ''categories'') = Some (JArr (map JStr cats))"
    and "map_of out (js ''completed'') = Some (JBool completed)"
    and "map_of out (js ''xpPotential'') = Some (JNum xp)"
    and "map_of out (js ''mood'') = Some (JStr mood)"
    and "map_of out (js ''sleepHrs'') = Some (JStr sleep)"
    and "map_of out (js ''difficulty'') = Some (JStr difficulty)"
    and "map_of out (js ''liked'') = Some (JStr liked)"
    and "map_of out (js ''challengeText'') = Some (JStr challenge)"
    and "map_of out (js ''answerText'') = Some (JStr answer)"
    and "map_of out (js ''insightText'') = Some (JStr insight)"
  shows "entryToClipboardText rt (JObj out) =
      Inr (join [10] (filter (\<lambda>l. l \<noteq> [])
        [title,
         stamp,
         js ''Rolled: '' @ join (js '', '') cats,
         js ''Completed: '' @ (if completed then js ''Yes'' else js ''No''),
         js ''XP: '' @ num_str rt (if completed \<and> xp \<noteq> NaN \<and> xp \<noteq> NZero then xp else Fin 0)
           @ js '' / '' @ num_str rt (if xp \<noteq> NaN \<and> xp \<noteq> NZero then xp else Fin 0),
         if mood = [] then [] else js ''Mood: '' @ mood,
         if sleep = [] then [] else js ''Sleep: '' @ sleep @ js '' hrs'',
         if difficulty = [] then [] else js ''Difficulty: '' @ difficulty,
         if liked = [] then [] else js ''Enjoyed: '' @ liked,
         if challenge = [] then [] else [10] @ js ''Challenge:'' @ [10] @ challenge,
         if answer = [] then [] else [10] @ js ''Answers / Notes:'' @ [10] @ answer,
         if insight = [] then [] else [10] @ js ''Insights:'' @ [10] @ insight]))
     \<and> (mood = [] \<and> sleep = js ''7.5'' \<and> difficulty = [] \<and> liked = [] \<longrightarrow>
          entryToClipboardText rt (JObj out) =
            Inr (join [10]
              (filter (\<lambda>l. l \<noteq> []) [title, stamp]
               @ [js ''Rolled: '' @ join (js '', '') cats,
                  js ''Completed: '' @ (if completed then js ''Yes'' else js ''No''),
                  js ''XP: '' @ num_str rt (if completed \<and> xp \<noteq> NaN \<and> xp \<noteq> NZero then xp else Fin 0)
                    @ js '' / '' @ num_str rt (if xp \<noteq> NaN \<and> xp \<noteq> NZero then xp else Fin 0),
                  js ''Sleep: 7.5 hrs'']
               @ filter (\<lambda>l. l \<noteq> [])
                   [if challenge = [] then [] else [10] @ js ''Challenge:'' @ [10] @ challenge,
                    if answer = [] then [] else [10] @ js ''Answers / Notes:'' @ [10] @ answer,
                    if insight = [] then [] else [10] @ js ''Insights:'' @ [10] @ insight])))"
proof -
  have z: "or_zero xp = (if xp \<noteq> NaN \<and> xp \<noteq> NZero then xp else Fin 0)"
    by (auto simp: or_zero_def)
  have e: "earned rt (JObj out)
      = Inr (if completed \<and> xp \<noteq> NaN \<and> xp \<noteq> NZero then xp else Fin 0)"
    using assms(4,5) by (simp add: earned_def bindE_def z)
  have h: "header_lines rt (JObj out) =
      Inr [title, stamp, js ''Rolled: '' @ join (js '', '') cats,
           js ''Completed: '' @ (if completed then js ''Yes'' else js ''No''),
           js ''XP: '' @ num_str rt (if completed \<and> xp \<noteq> NaN \<and> xp \<noteq> NZero then xp else Fin 0)
             @ js '' / '' @ num_str rt (if xp \<noteq> NaN \<and> xp \<noteq> NZero then xp else Fin 0)]"
    unfolding header_lines_def e
    using assms(1-5) by (simp add: bindE_def join_parts_strings z)
  have m: "metric_lines rt (JObj out) =
      Inr [if mood = [] then [] else js ''Mood: '' @ mood,
           if sleep = [] then [] else js ''Sleep: '' @ sleep @ js '' hrs'',
           if difficulty = [] then [] else js ''Difficulty: '' @ difficulty,
           if liked = [] then [] else js ''Enjoyed: '' @ liked]"
    using assms(6-9) by (simp add: metric_lines_def truthy_line_def bindE_def)
  have t: "text_lines rt (JObj out) =
      Inr [if challenge = [] then [] else [10] @ js ''Challenge:'' @ [10] @ challenge,
           if answer = [] then [] else [10] @ js ''Answers / Notes:'' @ [10] @ answer,
           if insight = [] then [] else [10] @ js ''Insights:'' @ [10] @ insight]"
    using assms(10-12) by (simp add: text_lines_def truthy_line_def bindE_def)
  have r: "js ''Rolled: '' @ join (js '', '') cats \<noteq> []"
    "js ''Completed: '' @ (if completed then js ''Yes'' else js ''No'') \<noteq> []"
    "js ''XP: '' @ num_str rt (if completed \<and> xp \<noteq> NaN \<and> xp \<noteq> NZero then xp else Fin 0)
       @ js '' / '' @ num_str rt (if xp \<noteq> NaN \<and> xp \<noteq> NZero then xp else Fin 0) \<noteq> []"
    by (simp_all add: js_def)
  have s: "js ''Sleep: '' @ js ''7.5'' @ js '' hrs'' = js ''Sleep: 7.5 hrs''" "js ''7.5'' \<noteq> []"
    by (simp_all add: js_def)
  have 1: "entryToClipboardText rt (JObj out) =
      Inr (join [10] (filter (\<lambda>l. l \<noteq> [])
        [title,
         stamp,
         js ''Rolled: '' @ join (js '', '') cats,
         js ''Completed: '' @ (if completed then js ''Yes'' else js ''No''),
         js ''XP: '' @ num_str rt (if completed \<and> xp \<noteq> NaN \<and> xp \<noteq> NZero then xp else Fin 0)
           @ js '' / '' @ num_str rt (if xp \<noteq> NaN \<and> xp \<noteq> NZero then xp else Fin 0),
         if mood = [] then [] else js ''Mood: '' @ mood,
         if sleep = [] then [] else js ''Sleep: '' @ sleep @ js '' hrs'',
         if difficulty = [] then [] else js ''Difficulty: '' @ difficulty,
         if liked = [] then [] else js ''Enjoyed: '' @ liked,
         if challenge = [] then [] else [10] @ js ''Challenge:'' @ [10] @ challenge,
         if answer = [] then [] else [10] @ js ''Answers / Notes:'' @ [10] @ answer,
         if insight = [] then [] else [10] @ js ''Insights:'' @ [10] @ insight]))"
    unfolding entryToClipboardText_def entry_lines_def h m t bindE_def by simp
  have 2: "entryToClipboardText rt (JObj out) =
            Inr (join [10]
              (filter (\<lambda>l. l \<noteq> []) [title, stamp]
               @ [js ''Rolled: '' @ join (js '', '') cats,
                  js ''Completed: '' @ (if completed then js ''Yes'' else js ''No''),
                  js ''XP: '' @ num_str rt (if completed \<and> xp \<noteq> NaN \<and> xp \<noteq> NZero then xp else Fin 0)
                    @ js '' / '' @ num_str rt (if xp \<noteq> NaN \<and> xp \<noteq> NZero then xp else Fin 0),
                  js ''Sleep: 7.5 hrs'']
               @ filter (\<lambda>l. l \<noteq> [])
                   [if challenge = [] then [] else [10] @ js ''Challenge:'' @ [10] @ challenge,
                    if answer = [] then [] else [10] @ js ''Answers / Notes:'' @ [10] @ answer,
                    if insight = [] then [] else [10] @ js ''Insights:'' @ [10] @ insight]))"
    if "mood = [] \<and> sleep = js ''7.5'' \<and> difficulty = [] \<and> liked = []"
  proof -
    from that have f: "mood = []" "sleep = js ''7.5''" "difficulty = []" "liked = []" by simp_all
    have m': "metric_lines rt (JObj out) = Inr [[], js ''Sleep: 7.5 hrs'', [], []]"
      unfolding m f using s by simp
    have "filter (\<lambda>l. l \<noteq> [])
        ([title, stamp, js ''Rolled: '' @ join (js '', '') cats,
           js ''Completed: '' @ (if completed then js ''Yes'' else js ''No''),
           js ''XP: '' @ num_str rt (if completed \<and> xp \<noteq> NaN \<and> xp \<noteq> NZero then xp else Fin 0)
             @ js '' / '' @ num_str rt (if xp \<noteq> NaN \<and> xp \<noteq> NZero then xp else Fin 0)]
         @ [[], js ''Sleep: 7.5 hrs'', [], []]
         @ [if challenge = [] then [] else [10] @ js ''Challenge:'' @ [10] @ challenge,
            if answer = [] then [] else [10] @ js ''Answers / Notes:'' @ [10] @ answer,
            if insight = [] then [] else [10] @ js ''Insights:'' @ [10] @ insight])
      = filter (\<lambda>l. l \<noteq> []) [title, stamp]
               @ [js ''Rolled: '' @ join (js '', '') cats,
                  js ''Completed: '' @ (if completed then js ''Yes'' else js ''No''),
                  js ''XP: '' @ num_str rt (if completed \<and> xp \<noteq> NaN \<and> xp \<noteq> NZero then xp else Fin 0)
                    @ js '' / '' @ num_str rt (if xp \<noteq> NaN \<and> xp \<noteq> NZero then xp else Fin 0),
                  js ''Sleep: 7.5 hrs'']
               @ filter (\<lambda>l. l \<noteq> [])
                   [if challenge = [] then [] else [10] @ js ''Challenge:'' @ [10] @ challenge,
                    if answer = [] then [] else [10] @ js ''Answers / Notes:'' @ [10] @ answer,
                    if insight = [] then [] else [10] @ js ''Insights:'' @ [10] @ insight]"
      using r by (simp add: js_def)
    then show ?thesis
      unfolding entryToClipboardText_def entry_lines_def h m' t bindE_def by simp
  qed
  from 1 2 show ?thesis by blast
qed

theorem clipboard_omits_empty_witness:
  "entryToClipboardText
      \<lparr>num_str = \<lambda>n. if n = Fin 0 then js ''0'' else js ''10'', str_num = \<lambda>s. NaN,
        obj_prim = \<lambda>v. Inl TypeError, fixed1 = \<lambda>n. []\<rparr>
      (JObj [(js ''id'', JStr (js ''id-3'')),
             (js ''time'', JStr (js ''Nov 02'')),
             (js ''title'', JStr (js ''Daily Neural Roll'')),
             (js ''categories'', JArr [JStr (js ''Quick Math'')]),
             (js ''xpPotential'', JNum (Fin 10)),
             (js ''completed'', JBool False),
             (js ''mood'', JStr []),
             (js ''sleepHrs'', JStr (js ''7.5'')),
             (js ''difficulty'', JStr []),
             (js ''liked'', JStr []),
             (js ''challengeText'', JStr []),
             (js ''answerText'', JStr (js ''ok'')),
             (js ''insightText'', JStr [])])
    = Inr (js ''Daily Neural Roll'' @ [10] @ js ''Nov 02'' @ [10] @ js ''Rolled: Quick Math'' @ [10]
           @ js ''Completed: No'' @ [10] @ js ''XP: 0 / 10'' @ [10] @ js ''Sleep: 7.5 hrs'' @ [10]
           @ [10] @ js ''Answers / Notes:'' @ [10] @ js ''ok'')"
proof -
  let ?rt = "\<lparr>num_str = \<lambda>n. if n = Fin 0 then js ''0'' else js ''10'', str_num = \<lambda>s. NaN,
        obj_prim = \<lambda>v. Inl TypeError, fixed1 = \<lambda>n. []\<rparr>"
  let ?out = "[(js ''id'', JStr (js ''id-3'')),
             (js ''time'', JStr (js ''Nov 02'')),
             (js ''title'', JStr (js ''Daily Neural Roll'')),
             (js ''categories'', JArr [JStr (js ''Quick Math'')]),
             (js ''xpPotential'', JNum (Fin 10)),
             (js ''completed'', JBool False),
             (js ''mood'', JStr []),
             (js ''sleepHrs'', JStr (js ''7.5'')),
             (js ''difficulty'', JStr []),
             (js ''liked'', JStr []),
             (js ''challengeText'', JStr []),
             (js ''answerText'', JStr (js ''ok'')),
             (js ''insightText'', JStr [])]"
  have f: "map_of ?out (js ''title'') = Some (JStr (js ''Daily Neural Roll''))"
    "map_of ?out (js ''time'') = Some (JStr (js ''Nov 02''))"
    "map_of ?out (js ''categories'') = Some (JArr (map JStr [js ''Quick Math'']))"
    "map_of ?out (js ''completed'') = Some (JBool False)"
    "map_of ?out (js ''xpPotential'') = Some (JNum (Fin 10))"
    "map_of ?out (js ''mood'') = Some (JStr [])"
    "map_of ?out (js ''sleepHrs'') = Some (JStr (js ''7.5''))"
    "map_of ?out (js ''difficulty'') = Some (JStr [])"
    "map_of ?out (js ''liked'') = Some (JStr [])"
    "map_of ?out (js ''challengeText'') = Some (JStr [])"
    "map_of ?out (js ''answerText'') = Some (JStr (js ''ok''))"
    "map_of ?out (js ''insightText'') = Some (JStr [])"
    by simp_all
  from clipboard_omits_empty [OF f, of ?rt, THEN conjunct2] show ?thesis
    by (simp add: js_def)
qed

end
